theory Spec2Isabelle
  imports Complex_Main "HOL-Library.Log_Nat" "HOL-Library.AList" "HOL-Library.Multiset"
begin

section \<open>Python strings as used by the generated scripts\<close>

text \<open>
  The scripts that \<^verbatim>\<open>document.ts\<close> hands to the interpreter work on Python \<^verbatim>\<open>str\<close>
  values returned by \<^verbatim>\<open>xref_get_key\<close>.  A string is a \<^typ>\<open>char list\<close>; a character is
  one code point below 256.  On that range \<^verbatim>\<open>str.isspace\<close> and the regular expression class
  \<^verbatim>\<open>\s\<close> hold for the code points 9-13, 28-32, 133 and 160, \<^verbatim>\<open>str.isdigit\<close> for the ASCII
  digits and the superscripts 178, 179 and 185, and the class \<^verbatim>\<open>\d\<close> for the ASCII digits only.
\<close>

definition isspace :: "char \<Rightarrow> bool" where
  "isspace c =
     (let n = (of_char c :: nat)
      in (9 \<le> n \<and> n \<le> 13) \<or> (28 \<le> n \<and> n \<le> 32) \<or> n = 133 \<or> n = 160)"

definition re_digit :: "char \<Rightarrow> bool" where
  "re_digit c = (let n = (of_char c :: nat) in 48 \<le> n \<and> n \<le> 57)"

definition isdigit :: "char \<Rightarrow> bool" where
  "isdigit c = (re_digit c \<or> (let n = (of_char c :: nat) in n = 178 \<or> n = 179 \<or> n = 185))"

text \<open>\<^verbatim>\<open>s.startswith(p)\<close>.\<close>

fun startswith :: "string \<Rightarrow> string \<Rightarrow> bool" where
  "startswith s [] = True"
| "startswith [] (p # ps) = False"
| "startswith (c # cs) (p # ps) = (c = p \<and> startswith cs ps)"

text \<open>\<^verbatim>\<open>s.find(p)\<close>: the lowest index at which \<open>p\<close> occurs in \<open>s\<close>; \<open>None\<close> stands for -1.\<close>

fun str_find :: "string \<Rightarrow> string \<Rightarrow> nat option" where
  "str_find [] p = (if p = [] then Some 0 else None)"
| "str_find (c # cs) p =
     (if startswith (c # cs) p then Some 0
      else map_option Suc (str_find cs p))"

text \<open>\<^verbatim>\<open>str(n)\<close> for a non-negative integer, as the f-strings of the scripts render it.\<close>

definition digit_char :: "nat \<Rightarrow> char" where
  "digit_char d = char_of (48 + d)"

fun str_nat :: "nat \<Rightarrow> string" where
  "str_nat n = (if n < 10 then [digit_char n] else str_nat (n div 10) @ [digit_char (n mod 10)])"

declare str_nat.simps [simp del]

text \<open>\<^verbatim>\<open>f"{xref} 0 R"\<close>.\<close>

definition ref_token :: "nat \<Rightarrow> string" where
  "ref_token xref = str_nat xref @ '' 0 R''"

section \<open>The write path: \<^verbatim>\<open>modify_pdf_order\<close> inside \<^verbatim>\<open>addOCGWithParent\<close>\<close>

text \<open>
  Step 1 of \<^verbatim>\<open>modify_pdf_order\<close>: the \<^verbatim>\<open>while i < len(order_string)\<close> loop.  The loop only
  ever reads \<^verbatim>\<open>order_string[i:]\<close>, so the model carries that suffix; \<open>depth\<close> and \<open>removed\<close>
  are the loop variables and the result is what the loop appends to \<^verbatim>\<open>cleaned_order\<close> from
  this point on.
\<close>

definition child_at :: "string \<Rightarrow> string \<Rightarrow> bool" where
  "child_at chunk c_ref =
     (startswith chunk c_ref \<and>
      (length chunk = length c_ref \<or> chunk ! length c_ref \<in> {CHR '' '', CHR '']''}))"

function remove_child :: "string \<Rightarrow> int \<Rightarrow> bool \<Rightarrow> string \<Rightarrow> string" where
  "remove_child [] depth removed c_ref = []"
| "remove_child (ch # rest) depth removed c_ref =
     (if ch = CHR ''['' then ch # remove_child rest (depth + 1) removed c_ref
      else if ch = CHR '']'' then ch # remove_child rest (depth - 1) removed c_ref
      else if \<not> removed \<and> depth = 1 \<and> child_at (ch # rest) c_ref
        then remove_child (dropWhile isspace (drop (length c_ref) (ch # rest))) depth True c_ref
      else ch # remove_child rest depth removed c_ref)"
  by pat_completeness auto
termination
proof (relation "measure (\<lambda>(s, d, r, c). 2 * length s + (if r then 0 else 1))")
  fix ch :: char and rest c_ref :: string and depth :: int and removed :: bool
  assume "\<not> removed \<and> depth = 1 \<and> child_at (ch # rest) c_ref"
  have "length (dropWhile isspace (drop (length c_ref) (ch # rest))) \<le> length (ch # rest)"
    by (rule order_trans [OF length_dropWhile_le]) simp
  then show "((dropWhile isspace (drop (length c_ref) (ch # rest)), depth, True, c_ref),
              (ch # rest, depth, removed, c_ref))
             \<in> measure (\<lambda>(s, d, r, c). 2 * length s + (if r then 0 else 1))"
    using \<open>\<not> removed \<and> depth = 1 \<and> child_at (ch # rest) c_ref\<close> by simp
qed auto

text \<open>
  The scan for the bracket that closes the parent's existing child array:
  \<^verbatim>\<open>for k in range(next_char_idx + 1, len(final_order))\<close> with \<^verbatim>\<open>arr_depth\<close>.  The result is the
  offset of the closing bracket in the text after the opening one; \<open>None\<close> when the loop ends
  without a \<^verbatim>\<open>break\<close> (\<^verbatim>\<open>insertion_point\<close> stays -1).
\<close>

fun find_close :: "string \<Rightarrow> int \<Rightarrow> nat option" where
  "find_close [] arr_depth = None"
| "find_close (ch # rest) arr_depth =
     (let d = (if ch = CHR ''['' then arr_depth + 1
               else if ch = CHR '']'' then arr_depth - 1 else arr_depth)
      in if d = 0 then Some 0 else map_option Suc (find_close rest d))"

text \<open>Step 2 of \<^verbatim>\<open>modify_pdf_order\<close>, on the cleaned text.\<close>

definition insert_child :: "string \<Rightarrow> string \<Rightarrow> string \<Rightarrow> string" where
  "insert_child final_order p_ref c_ref =
     (case str_find final_order p_ref of
        None \<Rightarrow> final_order
      | Some p_idx \<Rightarrow>
          (let scan_idx = p_idx + length p_ref;
               prefix = take scan_idx final_order;
               after = drop scan_idx final_order;
               spaces = takeWhile isspace after;
               next = dropWhile isspace after
           in (case next of
                 ch # inner \<Rightarrow>
                   (if ch = CHR ''['' then
                      (case find_close inner 1 of
                         None \<Rightarrow> final_order
                       | Some k \<Rightarrow>
                           prefix @ spaces @ [ch] @ take k inner @ '' '' @ c_ref @ drop k inner)
                    else prefix @ '' ['' @ c_ref @ '']'' @ after)
               | [] \<Rightarrow> prefix @ '' ['' @ c_ref @ '']'' @ after)))"

definition modify_pdf_order :: "string \<Rightarrow> string \<Rightarrow> string \<Rightarrow> string" where
  "modify_pdf_order order_string p_ref c_ref =
     (if order_string = [] then order_string
      else insert_child (remove_child order_string 0 False c_ref) p_ref c_ref)"

section \<open>The read path: the script of \<^verbatim>\<open>getLayerConfig\<close>\<close>

subsection \<open>Exceptions, integers and the two regular expressions\<close>

text \<open>
  Exceptions of the interpreter are values.  \<open>EngineError\<close> is whatever the PDF engine raises
  from one of its own calls; the other three are raised by Python itself.
\<close>

datatype py_exn = RecursionError | ValueError | KeyError | EngineError

text \<open>
  Two limits of the interpreter decide whether the parser can fail on its input: the number of
  nested calls of \<^verbatim>\<open>parse_order_array\<close> the stack still admits, and
  \<^verbatim>\<open>sys.get_int_max_str_digits()\<close> (0 switches that check off), beyond which \<^verbatim>\<open>int(...)\<close>
  raises \<^verbatim>\<open>ValueError\<close>.
\<close>

record py_limits =
  recursion_limit :: nat
  int_max_str_digits :: nat

definition digit_val :: "char \<Rightarrow> nat" where
  "digit_val c = of_char c - 48"

definition int_of_digits :: "string \<Rightarrow> nat" where
  "int_of_digits ds = foldl (\<lambda>n c. 10 * n + digit_val c) 0 ds"

definition py_int :: "py_limits \<Rightarrow> string \<Rightarrow> py_exn + nat" where
  "py_int pl ds =
     (if 0 < int_max_str_digits pl \<and> int_max_str_digits pl < length ds then Inl ValueError
      else Inr (int_of_digits ds))"

text \<open>
  \<^verbatim>\<open>re.match(r'(\d+)\s+0\s+R', s)\<close>: group 1 and the text after the match.  Each greedy
  repetition is followed by a pattern that cannot match a character of the repeated class, so
  the match takes every digit and every space it can and never backtracks.
\<close>

definition re_ref_zero :: "string \<Rightarrow> (string \<times> string) option" where
  "re_ref_zero s =
     (let ds = takeWhile re_digit s; s1 = dropWhile re_digit s;
          ws1 = takeWhile isspace s1; s2 = dropWhile isspace s1
      in if ds = [] \<or> ws1 = [] then None
         else (case s2 of
                 [] \<Rightarrow> None
               | z # s3 \<Rightarrow>
                   (let ws2 = takeWhile isspace s3; s4 = dropWhile isspace s3
                    in if z \<noteq> CHR ''0'' \<or> ws2 = [] then None
                       else (case s4 of
                               [] \<Rightarrow> None
                             | r # s5 \<Rightarrow> if r = CHR ''R'' then Some (ds, s5) else None))))"

text \<open>\<^verbatim>\<open>re.match(r'(\d+)\s+\d+\s+R', s)\<close>, with any generation number.\<close>

definition re_ref_any :: "string \<Rightarrow> (string \<times> string) option" where
  "re_ref_any s =
     (let ds = takeWhile re_digit s; s1 = dropWhile re_digit s;
          ws1 = takeWhile isspace s1; s2 = dropWhile isspace s1;
          gs = takeWhile re_digit s2; s3 = dropWhile re_digit s2;
          ws2 = takeWhile isspace s3; s4 = dropWhile isspace s3
      in if ds = [] \<or> ws1 = [] \<or> gs = [] \<or> ws2 = [] then None
         else (case s4 of
                 [] \<Rightarrow> None
               | r # s5 \<Rightarrow> if r = CHR ''R'' then Some (ds, s5) else None))"

text \<open>\<^verbatim>\<open>re.search\<close>: the match at the lowest start index; only group 1 is used.\<close>

fun re_search :: "(string \<Rightarrow> (string \<times> string) option) \<Rightarrow> string \<Rightarrow> string option" where
  "re_search m [] = None"
| "re_search m (c # cs) =
     (case m (c # cs) of Some (g, rest) \<Rightarrow> Some g | None \<Rightarrow> re_search m cs)"

lemma re_ref_zero_shorter: "re_ref_zero s = Some (g, rest) \<Longrightarrow> length rest < length s"
proof -
  assume a: "re_ref_zero s = Some (g, rest)"
  let ?s1 = "dropWhile re_digit s"
  let ?s2 = "dropWhile isspace ?s1"
  from a obtain z s3 where s2: "?s2 = z # s3"
    by (auto simp: re_ref_zero_def Let_def split: list.splits if_splits)
  from a s2 obtain r where s4: "dropWhile isspace s3 = r # rest"
    by (auto simp: re_ref_zero_def Let_def split: list.splits if_splits)
  have "length rest < length (dropWhile isspace s3)" using s4 by simp
  also have "\<dots> \<le> length s3" by (rule length_dropWhile_le)
  also have "\<dots> \<le> length ?s2" using s2 by simp
  also have "\<dots> \<le> length ?s1" by (rule length_dropWhile_le)
  also have "\<dots> \<le> length s" by (rule length_dropWhile_le)
  finally show ?thesis .
qed

text \<open>\<^verbatim>\<open>re.findall(r'(\d+)\s+0\s+R', s)\<close>: group 1 of every match, left to right.\<close>

function findall_refs :: "string \<Rightarrow> string list" where
  "findall_refs [] = []"
| "findall_refs (c # cs) =
     (case re_ref_zero (c # cs) of
        Some (g, rest) \<Rightarrow> g # findall_refs rest
      | None \<Rightarrow> findall_refs cs)"
  by pat_completeness auto
termination
  by (relation "measure length") (auto dest: re_ref_zero_shorter)

subsection \<open>Group descriptors and the parser state\<close>

text \<open>One entry of \<^verbatim>\<open>layer_ui_configs()\<close>, and one entry of \<^verbatim>\<open>layer_map\<close> (an \<^verbatim>\<open>OCGInfo\<close>).\<close>

record layer_ui =
  ui_number :: int
  ui_text :: string
  ui_on :: bool
  ui_locked :: bool

record ocg_info =
  ocg_number :: int
  ocg_text :: string
  ocg_on :: bool
  ocg_locked :: bool
  ocg_depth :: nat
  ocg_xref :: nat
  ocg_parentXref :: nat
  ocg_displayOrder :: nat

text \<open>
  The mutable data of the script: \<^verbatim>\<open>layer_map\<close> (a dict, in insertion order), \<^verbatim>\<open>xref_to_num\<close>
  and the counter \<^verbatim>\<open>display_order[0]\<close>.  \<open>visited\<close> is a history variable that the script does
  not have and that nothing here reads back: it records, in order, every assignment the parser
  makes, as (layer number, depth, parent).
\<close>

record read_state =
  layer_map :: "(int \<times> ocg_info) list"
  xref_to_num :: "(nat \<times> int) list"
  display_order :: nat
  visited :: "(int \<times> nat \<times> nat) list"

text \<open>The body of \<^verbatim>\<open>if xref in xref_to_num:\<close> in \<^verbatim>\<open>parse_order_array\<close>.\<close>

definition assign_order :: "nat \<Rightarrow> nat \<Rightarrow> nat \<Rightarrow> read_state \<Rightarrow> read_state \<times> py_exn option" where
  "assign_order x dep parent_xref st =
     (case map_of (xref_to_num st) x of
        None \<Rightarrow> (st, None)
      | Some num \<Rightarrow>
          (case map_of (layer_map st) num of
             None \<Rightarrow> (st, Some KeyError)
           | Some info \<Rightarrow>
               (st\<lparr>layer_map :=
                      AList.update num
                        (info\<lparr>ocg_depth := dep, ocg_parentXref := parent_xref,
                              ocg_displayOrder := display_order st\<rparr>)
                        (layer_map st),
                    display_order := Suc (display_order st),
                    visited := visited st @ [(num, dep, parent_xref)]\<rparr>, None)))"

text \<open>
  The inner \<^verbatim>\<open>while j < len(order_val) and bracket_depth > 0\<close> loop: how far \<open>j\<close> moves beyond
  \<^verbatim>\<open>start\<close>.
\<close>

fun scan_brackets :: "string \<Rightarrow> int \<Rightarrow> nat" where
  "scan_brackets [] bracket_depth = 0"
| "scan_brackets (c # cs) bracket_depth =
     (if 0 < bracket_depth
      then Suc (scan_brackets cs
                 (if c = CHR ''['' then bracket_depth + 1
                  else if c = CHR '']'' then bracket_depth - 1 else bracket_depth))
      else 0)"

lemma scan_brackets_le: "scan_brackets s d \<le> length s"
  by (induction s arbitrary: d) auto

text \<open>
  \<^verbatim>\<open>parse_order_array(order_val, depth, parent_xref)\<close>.  \<open>parse_loop\<close> is its \<^verbatim>\<open>while\<close> loop on the
  text from index \<open>i\<close> on, with \<^verbatim>\<open>last_xref\<close> as it stands; \<open>frames\<close> counts the nested calls the
  interpreter still admits.  The result is the state when the call returns or raises, and the
  exception if it raised.
\<close>

function parse_loop ::
  "py_limits \<Rightarrow> nat \<Rightarrow> string \<Rightarrow> nat \<Rightarrow> nat \<Rightarrow> nat \<Rightarrow> read_state \<Rightarrow> read_state \<times> py_exn option"
where
  "parse_loop pl frames [] dep parent_xref last_xref st = (st, None)"
| "parse_loop pl frames (ch # rest) dep parent_xref last_xref st =
     (if ch = CHR ''['' then
        (let j = scan_brackets rest 1;
             nested_content = take (j - 1) rest
         in if frames = 0 then (st, Some RecursionError)
            else (case parse_loop pl (frames - 1) nested_content (dep + 1) last_xref 0 st of
                    (st', Some e) \<Rightarrow> (st', Some e)
                  | (st', None) \<Rightarrow> parse_loop pl frames (drop j rest) dep parent_xref last_xref st'))
      else if ch = CHR '']'' then parse_loop pl frames rest dep parent_xref last_xref st
      else if isdigit ch then
        (case re_ref_zero (ch # rest) of
           None \<Rightarrow> parse_loop pl frames rest dep parent_xref last_xref st
         | Some (g, after) \<Rightarrow>
             (case py_int pl g of
                Inl e \<Rightarrow> (st, Some e)
              | Inr x \<Rightarrow>
                  (case assign_order x dep parent_xref st of
                     (st', Some e) \<Rightarrow> (st', Some e)
                   | (st', None) \<Rightarrow> parse_loop pl frames after dep parent_xref x st')))
      else parse_loop pl frames rest dep parent_xref last_xref st)"
  by pat_completeness auto
termination
  by (relation "measure (\<lambda>(pl, frames, s, r). length s)")
     (auto dest: re_ref_zero_shorter intro: le_imp_less_Suc order_trans [OF _ scan_brackets_le])

declare parse_loop.simps(2) [simp del]

definition parse_order_array ::
  "py_limits \<Rightarrow> nat \<Rightarrow> string \<Rightarrow> nat \<Rightarrow> nat \<Rightarrow> read_state \<Rightarrow> read_state \<times> py_exn option"
where
  "parse_order_array pl frames order_val dep parent_xref st =
     (if frames = 0 then (st, Some RecursionError)
      else parse_loop pl (frames - 1) order_val dep parent_xref 0 st)"

subsection \<open>The document as the script sees it\<close>

text \<open>
  The PDF engine is not part of this package.  The script reads the document through three
  calls, each of which returns or raises; a document is whatever those calls answer.
\<close>

record engine =
  layer_ui_configs :: "py_exn + layer_ui list"
  pdf_catalog :: "py_exn + nat"
  xref_get_key :: "nat \<Rightarrow> string \<Rightarrow> py_exn + (string \<times> string)"

text \<open>The first loop of the script: \<^verbatim>\<open>layer_map[num] = {...}\<close> for every layer.\<close>

definition new_info :: "layer_ui \<Rightarrow> ocg_info" where
  "new_info layer =
     \<lparr>ocg_number = ui_number layer, ocg_text = ui_text layer, ocg_on = ui_on layer,
      ocg_locked = ui_locked layer, ocg_depth = 0, ocg_xref = 0, ocg_parentXref = 0,
      ocg_displayOrder = 0\<rparr>"

definition init_layer_map :: "layer_ui list \<Rightarrow> (int \<times> ocg_info) list" where
  "init_layer_map layers =
     fold (\<lambda>layer m. AList.update (ui_number layer) (new_info layer) m) layers []"

definition init_state :: "layer_ui list \<Rightarrow> read_state" where
  "init_state layers =
     \<lparr>layer_map = init_layer_map layers, xref_to_num = [], display_order = 0, visited = []\<rparr>"

text \<open>
  Locating \<^verbatim>\<open>ocgs_str\<close> and \<^verbatim>\<open>order_str\<close>: the \<^verbatim>\<open>if t == "dict": ... elif t != "null": ...\<close>
  cascade at the head of the \<^verbatim>\<open>try\<close> block.  \<open>None\<close> is Python's \<^verbatim>\<open>None\<close>.
\<close>

definition locate_read :: "py_limits \<Rightarrow> engine \<Rightarrow> py_exn + (string option \<times> string option)" where
  "locate_read pl eng =
     (case pdf_catalog eng of
        Inl e \<Rightarrow> Inl e
      | Inr catalog_xref \<Rightarrow>
     (case xref_get_key eng catalog_xref ''OCProperties'' of
        Inl e \<Rightarrow> Inl e
      | Inr (t, ocprop_val) \<Rightarrow>
     if t = ''dict'' then
       (case xref_get_key eng catalog_xref ''OCProperties/OCGs'' of
          Inl e \<Rightarrow> Inl e
        | Inr (t_ocg, ocgs_str) \<Rightarrow>
       (case xref_get_key eng catalog_xref ''OCProperties/D/Order'' of
          Inl e \<Rightarrow> Inl e
        | Inr (t2, order_str) \<Rightarrow> Inr (Some ocgs_str, Some order_str)))
     else if t \<noteq> ''null'' then
       (case re_search re_ref_any ocprop_val of
          None \<Rightarrow> Inr (None, None)
        | Some g \<Rightarrow>
       (case py_int pl g of
          Inl e \<Rightarrow> Inl e
        | Inr ocprop_xref \<Rightarrow>
       (case xref_get_key eng ocprop_xref ''OCGs'' of
          Inl e \<Rightarrow> Inl e
        | Inr (t_ocg, ocgs_str) \<Rightarrow>
       (case xref_get_key eng ocprop_xref ''D'' of
          Inl e \<Rightarrow> Inl e
        | Inr (t2, d_val) \<Rightarrow>
       if t2 = ''dict'' then
         (case xref_get_key eng ocprop_xref ''D/Order'' of
            Inl e \<Rightarrow> Inl e
          | Inr (t3, order_str) \<Rightarrow> Inr (Some ocgs_str, Some order_str))
       else if t2 \<noteq> ''null'' then
         (case re_search re_ref_any d_val of
            None \<Rightarrow> Inr (Some ocgs_str, None)
          | Some g2 \<Rightarrow>
         (case py_int pl g2 of
            Inl e \<Rightarrow> Inl e
          | Inr d_xref \<Rightarrow>
         (case xref_get_key eng d_xref ''Order'' of
            Inl e \<Rightarrow> Inl e
          | Inr (t3, order_str) \<Rightarrow> Inr (Some ocgs_str, Some order_str))))
       else Inr (Some ocgs_str, None)))))
     else Inr (None, None)))"

text \<open>\<^verbatim>\<open>s.strip()\<close>, and the removal of one pair of enclosing delimiters (\<^verbatim>\<open>s[1:-1]\<close>).\<close>

definition strip :: "string \<Rightarrow> string" where
  "strip s = rev (dropWhile isspace (rev (dropWhile isspace s)))"

definition unwrap :: "char \<Rightarrow> char \<Rightarrow> string \<Rightarrow> string" where
  "unwrap l r s = (if s \<noteq> [] \<and> hd s = l \<and> last s = r then butlast (tl s) else s)"

text \<open>\<^verbatim>\<open>name_to_num[info['text']] = num\<close> for every item of \<^verbatim>\<open>layer_map\<close>.\<close>

definition name_to_num :: "(int \<times> ocg_info) list \<Rightarrow> string \<rightharpoonup> int" where
  "name_to_num m = fold (\<lambda>(num, info) n2n. n2n(ocg_text info \<mapsto> num)) m Map.empty"

text \<open>\<^verbatim>\<open>[int(x) for x in xref_matches]\<close>.\<close>

fun ints_of :: "py_limits \<Rightarrow> string list \<Rightarrow> py_exn + nat list" where
  "ints_of pl [] = Inr []"
| "ints_of pl (g # gs) =
     (case py_int pl g of
        Inl e \<Rightarrow> Inl e
      | Inr x \<Rightarrow> (case ints_of pl gs of Inl e \<Rightarrow> Inl e | Inr xs \<Rightarrow> Inr (x # xs)))"

text \<open>\<^verbatim>\<open>for xref in ocg_xrefs:\<close>, matching each group's \<^verbatim>\<open>Name\<close> to a layer.\<close>

fun resolve_names ::
  "engine \<Rightarrow> (string \<rightharpoonup> int) \<Rightarrow> nat list \<Rightarrow> read_state \<Rightarrow> read_state \<times> py_exn option"
where
  "resolve_names eng n2n [] st = (st, None)"
| "resolve_names eng n2n (x # xs) st =
     (case xref_get_key eng x ''Name'' of
        Inl e \<Rightarrow> (st, Some e)
      | Inr (t_name, name_val) \<Rightarrow>
          (if t_name \<noteq> ''null'' \<and> name_val \<noteq> [] then
             (case n2n (unwrap CHR ''('' CHR '')'' (strip name_val)) of
                None \<Rightarrow> resolve_names eng n2n xs st
              | Some num \<Rightarrow>
                  (case map_of (layer_map st) num of
                     None \<Rightarrow> (st, Some KeyError)
                   | Some info \<Rightarrow>
                       resolve_names eng n2n xs
                         (st\<lparr>layer_map := AList.update num (info\<lparr>ocg_xref := x\<rparr>) (layer_map st),
                             xref_to_num := AList.update x num (xref_to_num st)\<rparr>)))
           else resolve_names eng n2n xs st))"

text \<open>\<^verbatim>\<open>if ocgs_str: ...\<close>\<close>

definition resolve_step ::
  "py_limits \<Rightarrow> engine \<Rightarrow> string option \<Rightarrow> read_state \<Rightarrow> read_state \<times> py_exn option"
where
  "resolve_step pl eng ocgs_str st =
     (case ocgs_str of
        None \<Rightarrow> (st, None)
      | Some ocgs \<Rightarrow>
          (if ocgs = [] then (st, None)
           else (case ints_of pl (findall_refs ocgs) of
                   Inl e \<Rightarrow> (st, Some e)
                 | Inr ocg_xrefs \<Rightarrow> resolve_names eng (name_to_num (layer_map st)) ocg_xrefs st)))"

text \<open>\<^verbatim>\<open>if order_str: ...\<close>\<close>

definition order_step ::
  "py_limits \<Rightarrow> string option \<Rightarrow> read_state \<Rightarrow> read_state \<times> py_exn option"
where
  "order_step pl order_str st =
     (case order_str of
        None \<Rightarrow> (st, None)
      | Some order \<Rightarrow>
          (if order = [] then (st, None)
           else parse_order_array pl (recursion_limit pl)
                  (unwrap CHR ''['' CHR '']'' (strip order)) 0 0 (st\<lparr>display_order := 0\<rparr>)))"

text \<open>The \<^verbatim>\<open>try\<close> block: the state it leaves behind, and the exception that ended it, if any.\<close>

definition try_block :: "py_limits \<Rightarrow> engine \<Rightarrow> read_state \<Rightarrow> read_state \<times> py_exn option" where
  "try_block pl eng st =
     (case locate_read pl eng of
        Inl e \<Rightarrow> (st, Some e)
      | Inr (ocgs_str, order_str) \<Rightarrow>
          (case resolve_step pl eng ocgs_str st of
             (st', Some e) \<Rightarrow> (st', Some e)
           | (st', None) \<Rightarrow> order_step pl order_str st'))"

text \<open>
  The whole script.  \<^verbatim>\<open>layer_ui_configs()\<close> is called outside the \<^verbatim>\<open>try\<close>; whatever the block
  raises is dropped by \<^verbatim>\<open>except Exception: pass\<close>, and the values of \<^verbatim>\<open>layer_map\<close> are sorted
  by \<^verbatim>\<open>displayOrder\<close> (\<^verbatim>\<open>sorted\<close> is stable).
\<close>

definition read_final :: "py_limits \<Rightarrow> engine \<Rightarrow> layer_ui list \<Rightarrow> read_state" where
  "read_final pl eng layers = fst (try_block pl eng (init_state layers))"

definition getLayerConfig_script :: "py_limits \<Rightarrow> engine \<Rightarrow> py_exn + ocg_info list" where
  "getLayerConfig_script pl eng =
     (case layer_ui_configs eng of
        Inl e \<Rightarrow> Inl e
      | Inr layers \<Rightarrow>
          Inr (sort_key ocg_displayOrder (map snd (layer_map (read_final pl eng layers)))))"

subsection \<open>Example documents\<close>

text \<open>
  Documents for the concrete evaluations below.  The catalogue is object 1 and holds
  \<^verbatim>\<open>OCProperties\<close> inline; groups are named by their \<^verbatim>\<open>Name\<close> entries.
\<close>

definition doc_with ::
  "layer_ui list \<Rightarrow> string \<Rightarrow> string \<Rightarrow> (nat \<times> string) list \<Rightarrow> engine"
where
  "doc_with layers ocgs order names =
     \<lparr>layer_ui_configs = Inr layers,
      pdf_catalog = Inr 1,
      xref_get_key = (\<lambda>x key.
        if x = 1 \<and> key = ''OCProperties'' then Inr (''dict'', ''<<>>'')
        else if x = 1 \<and> key = ''OCProperties/OCGs'' then Inr (''array'', ocgs)
        else if x = 1 \<and> key = ''OCProperties/D/Order'' then Inr (''array'', order)
        else if key = ''Name'' then
          (case map_of names x of
             Some n \<Rightarrow> Inr (''string'', n)
           | None \<Rightarrow> Inr (''null'', ''null''))
        else Inr (''null'', ''null''))\<rparr>"

definition layer :: "int \<Rightarrow> string \<Rightarrow> layer_ui" where
  "layer n name = \<lparr>ui_number = n, ui_text = name, ui_on = True, ui_locked = False\<rparr>"

definition limits :: py_limits where
  "limits = \<lparr>recursion_limit = 1000, int_max_str_digits = 4300\<rparr>"

section \<open>The script of \<^verbatim>\<open>addOCGWithParent\<close>\<close>

text \<open>
  The script changes the document: it creates the group through the engine's \<^verbatim>\<open>add_ocg\<close> and
  writes the ordering array back with \<^verbatim>\<open>xref_set_key\<close>.  A document of type \<open>'d\<close> answers the
  reading calls through \<open>view\<close>; the two writing calls return the document they leave behind
  together with their result.  Nothing in the script catches an exception.
\<close>

record ocg_args =
  arg_name :: string
  arg_config :: int
  arg_on :: bool
  arg_intent :: string
  arg_usage :: string

record 'd writer =
  add_ocg :: "'d \<Rightarrow> ocg_args \<Rightarrow> 'd \<times> (py_exn + nat)"
  view :: "'d \<Rightarrow> engine"
  xref_set_key :: "'d \<Rightarrow> nat \<Rightarrow> string \<Rightarrow> string \<Rightarrow> 'd \<times> py_exn option"

text \<open>
  Step 2 of the script: \<^verbatim>\<open>order_str\<close>, \<^verbatim>\<open>order_xref\<close> and \<^verbatim>\<open>order_key_path\<close>, each \<open>None\<close>
  until a branch assigns it.
\<close>

definition locate_write ::
  "py_limits \<Rightarrow> engine \<Rightarrow> py_exn + (string option \<times> nat option \<times> string option)"
where
  "locate_write pl eng =
     (case pdf_catalog eng of
        Inl e \<Rightarrow> Inl e
      | Inr catalog_xref \<Rightarrow>
     (case xref_get_key eng catalog_xref ''OCProperties'' of
        Inl e \<Rightarrow> Inl e
      | Inr (t, ocprop_val) \<Rightarrow>
     if t = ''dict'' then
       (case xref_get_key eng catalog_xref ''OCProperties/D/Order'' of
          Inl e \<Rightarrow> Inl e
        | Inr (t2, order_str) \<Rightarrow>
            Inr (Some order_str, Some catalog_xref, Some ''OCProperties/D/Order''))
     else if t \<noteq> ''null'' then
       (case re_search re_ref_any ocprop_val of
          None \<Rightarrow> Inr (None, None, None)
        | Some g \<Rightarrow>
       (case py_int pl g of
          Inl e \<Rightarrow> Inl e
        | Inr ocprop_xref \<Rightarrow>
       (case xref_get_key eng ocprop_xref ''D'' of
          Inl e \<Rightarrow> Inl e
        | Inr (t2, d_val) \<Rightarrow>
       if t2 = ''dict'' then
         (case xref_get_key eng ocprop_xref ''D/Order'' of
            Inl e \<Rightarrow> Inl e
          | Inr (t3, order_str) \<Rightarrow> Inr (Some order_str, Some ocprop_xref, Some ''D/Order''))
       else if t2 \<noteq> ''null'' then
         (case re_search re_ref_any d_val of
            None \<Rightarrow> Inr (None, None, None)
          | Some g2 \<Rightarrow>
         (case py_int pl g2 of
            Inl e \<Rightarrow> Inl e
          | Inr d_xref \<Rightarrow>
         (case xref_get_key eng d_xref ''Order'' of
            Inl e \<Rightarrow> Inl e
          | Inr (t3, order_str) \<Rightarrow> Inr (Some order_str, Some d_xref, Some ''Order''))))
       else Inr (None, None, None))))
     else Inr (None, None, None)))"

text \<open>
  The whole script: the document it leaves, and the exception it raised or the new group's
  xref, its value.  \<^verbatim>\<open>if order_str and order_xref:\<close> holds for a non-empty string and a
  non-zero number.
\<close>

definition addOCGWithParent_script ::
  "py_limits \<Rightarrow> 'd writer \<Rightarrow> ocg_args \<Rightarrow> nat \<Rightarrow> 'd \<Rightarrow> 'd \<times> (py_exn + nat)"
where
  "addOCGWithParent_script pl w args parentXref d =
     (case add_ocg w d args of
        (d1, Inl e) \<Rightarrow> (d1, Inl e)
      | (d1, Inr child_xref) \<Rightarrow>
          (case locate_write pl (view w d1) of
             Inl e \<Rightarrow> (d1, Inl e)
           | Inr (Some order_str, Some order_xref, Some order_key_path) \<Rightarrow>
               (if order_str \<noteq> [] \<and> order_xref \<noteq> 0 then
                  (case xref_set_key w d1 order_xref order_key_path
                          (modify_pdf_order order_str (ref_token parentXref) (ref_token child_xref)) of
                     (d2, Some e) \<Rightarrow> (d2, Inl e)
                   | (d2, None) \<Rightarrow> (d2, Inr child_xref))
                else (d1, Inr child_xref))
           | Inr _ \<Rightarrow> (d1, Inr child_xref)))"

subsection \<open>An example document store\<close>

text \<open>
  A small store that behaves as the script expects of the engine: \<^verbatim>\<open>add_ocg\<close> takes the next
  free xref and appends the new reference to the group list and to the root of the ordering
  array, and \<^verbatim>\<open>xref_set_key\<close> replaces the ordering array.  It serves the concrete evaluations.
\<close>

record example_doc =
  ex_layers :: "layer_ui list"
  ex_ocgs :: string
  ex_order :: string
  ex_names :: "(nat \<times> string) list"
  ex_next :: nat

definition push_ref :: "string \<Rightarrow> nat \<Rightarrow> string" where
  "push_ref arr x =
     butlast arr @ (if butlast arr = ''['' then [] else '' '') @ ref_token x @ '']''"

definition example_store :: "example_doc writer" where
  "example_store =
     \<lparr>add_ocg = (\<lambda>d args.
        (d\<lparr>ex_layers := ex_layers d @ [layer (int (length (ex_layers d))) (arg_name args)],
           ex_ocgs := push_ref (ex_ocgs d) (ex_next d),
           ex_order := push_ref (ex_order d) (ex_next d),
           ex_names := ex_names d @ [(ex_next d, ''('' @ arg_name args @ '')'')],
           ex_next := Suc (ex_next d)\<rparr>, Inr (ex_next d))),
      view = (\<lambda>d. doc_with (ex_layers d) (ex_ocgs d) (ex_order d) (ex_names d)),
      xref_set_key = (\<lambda>d x key v.
        if x = 1 \<and> key = ''OCProperties/D/Order'' then (d\<lparr>ex_order := v\<rparr>, None)
        else (d, Some EngineError))\<rparr>"

definition new_group :: "string \<Rightarrow> ocg_args" where
  "new_group name =
     \<lparr>arg_name = name, arg_config = - 1, arg_on = True, arg_intent = ''View'',
      arg_usage = ''Artwork''\<rparr>"

text \<open>One group, xref 5, at the root; the next free xref is 7.\<close>

definition one_group :: example_doc where
  "one_group =
     \<lparr>ex_layers = [layer 0 ''A''], ex_ocgs = ''[5 0 R]'', ex_order = ''[5 0 R]'',
      ex_names = [(5, ''(A)'')], ex_next = 7\<rparr>"

text \<open>Two groups at the root, xref 15 listed before xref 5; the next free xref is 20.\<close>

definition two_groups :: example_doc where
  "two_groups =
     \<lparr>ex_layers = [layer 0 ''Q'', layer 1 ''P''], ex_ocgs = ''[15 0 R 5 0 R]'',
      ex_order = ''[15 0 R 5 0 R]'', ex_names = [(15, ''(Q)''), (5, ''(P)'')], ex_next = 20\<rparr>"

section \<open>The document handle (\<^verbatim>\<open>document.ts\<close>)\<close>

subsection \<open>The interpreter, as the handle sees it\<close>

text \<open>
  Every method of \<^verbatim>\<open>PyMuPDFDocument\<close> builds a piece of Python and passes it to
  \<^verbatim>\<open>pyodide.runPython\<close>.  A \<open>call\<close> is one such piece, named after what it invokes and
  carrying the values interpolated into it (the first string is \<^verbatim>\<open>docVar\<close>); the two file
  system calls of the facade and of \<^verbatim>\<open>close\<close> are calls as well.
\<close>

datatype val = VNone | VInt int | VBool bool | VStr string | VPage string int | VList "val list"

datatype call =
    PageCount string
  | IsPdf string
  | IsEncrypted string
  | NeedsPass string
  | Metadata string
  | SetMetadata string string
  | DeletePage string int
  | InsertPage string int int int
  | MovePage string int int
  | CopyPage string int int
  | Select string "int list"
  | InsertPdf string string int int int int
  | ConvertToPdf string
  | SearchFor string int string
  | GetToc string
  | SetToc string "(int \<times> string \<times> int) list"
  | IsFormPdf string
  | GetFormFields string
  | SetFormField string string "bool + string"
  | Authenticate string string
  | ToBytes string int bool bool "(string \<times> string \<times> int) option"
  | LayerConfigScript string
  | AddOcg string ocg_args
  | AddOcgWithParentScript string ocg_args int
  | SetLayerVisibilityScript string int bool
  | SetOc string int int
  | GetOc string int
  | DeleteOcgScript string int
  | DocClose string
  | OpenDoc string string
  | NewDoc string
  | FsWriteFile string
  | FsUnlink string

text \<open>
  The interpreter is a parameter: a state of type \<open>'s\<close> and what each call does to it and
  returns or raises.  \<^verbatim>\<open>page_count\<close> is kept apart because its answer is used as a number.
  A \<open>world\<close> is the interpreter's state together with the calls made so far; the list of
  calls is a history variable.
\<close>

record 's interp =
  page_count :: "string \<Rightarrow> 's \<Rightarrow> 's \<times> (py_exn + int)"
  exec :: "call \<Rightarrow> 's \<Rightarrow> 's \<times> (py_exn + val)"

record 's world =
  py :: 's
  calls :: "call list"

datatype js_error =
    DocumentClosed
  | PageIndexOutOfRange int int
  | PythonError py_exn
  | TypeError
  | NoPdfsProvided

text \<open>The fields of a \<^verbatim>\<open>PyMuPDFDocument\<close>.\<close>

record doc =
  docVar :: string
  inputPath :: string
  doc_closed :: bool

definition runPython :: "'s interp \<Rightarrow> call \<Rightarrow> 's world \<Rightarrow> 's world \<times> (js_error + val)" where
  "runPython itp c w =
     (case exec itp c (py w) of
        (s, Inl e) \<Rightarrow> (\<lparr>py = s, calls = calls w @ [c]\<rparr>, Inl (PythonError e))
      | (s, Inr v) \<Rightarrow> (\<lparr>py = s, calls = calls w @ [c]\<rparr>, Inr v))"

text \<open>\<^verbatim>\<open>ensureOpen(); <body>\<close>\<close>

definition ensureOpen ::
  "doc \<Rightarrow> ('w \<Rightarrow> 'w \<times> (js_error + 'a)) \<Rightarrow> 'w \<Rightarrow> 'w \<times> (js_error + 'a)"
where
  "ensureOpen d body w = (if doc_closed d then (w, Inl DocumentClosed) else body w)"

text \<open>A \<^verbatim>\<open>for\<close> loop over a list whose body may throw.\<close>

fun each :: "('a \<Rightarrow> 'w \<Rightarrow> 'w \<times> (js_error + 'b)) \<Rightarrow> 'a list \<Rightarrow> 'w \<Rightarrow> 'w \<times> (js_error + 'b list)" where
  "each f [] w = (w, Inr [])"
| "each f (x # xs) w =
     (case f x w of
        (w1, Inl e) \<Rightarrow> (w1, Inl e)
      | (w1, Inr v) \<Rightarrow>
          (case each f xs w1 of
             (w2, Inl e) \<Rightarrow> (w2, Inl e)
           | (w2, Inr vs) \<Rightarrow> (w2, Inr (v # vs))))"

subsection \<open>Pages\<close>

definition pageCount :: "'s interp \<Rightarrow> doc \<Rightarrow> 's world \<Rightarrow> 's world \<times> (js_error + int)" where
  "pageCount itp d =
     ensureOpen d (\<lambda>w.
       case page_count itp (docVar d) (py w) of
         (s, Inl e) \<Rightarrow> (\<lparr>py = s, calls = calls w @ [PageCount (docVar d)]\<rparr>, Inl (PythonError e))
       | (s, Inr n) \<Rightarrow> (\<lparr>py = s, calls = calls w @ [PageCount (docVar d)]\<rparr>, Inr n))"

text \<open>
  \<^verbatim>\<open>throw new Error(`Page index ${index} out of range (0-${this.pageCount - 1})`)\<close>: building
  the message reads the page count once more.
\<close>

definition out_of_range :: "'s interp \<Rightarrow> doc \<Rightarrow> int \<Rightarrow> 's world \<Rightarrow> 's world \<times> (js_error + val)" where
  "out_of_range itp d index w =
     (case pageCount itp d w of
        (w1, Inl e) \<Rightarrow> (w1, Inl e)
      | (w1, Inr n) \<Rightarrow> (w1, Inl (PageIndexOutOfRange index (n - 1))))"

definition getPage :: "'s interp \<Rightarrow> doc \<Rightarrow> int \<Rightarrow> 's world \<Rightarrow> 's world \<times> (js_error + val)" where
  "getPage itp d index =
     ensureOpen d (\<lambda>w.
       if index < 0 then out_of_range itp d index w
       else (case pageCount itp d w of
               (w1, Inl e) \<Rightarrow> (w1, Inl e)
             | (w1, Inr n) \<Rightarrow>
                 if index \<ge> n then out_of_range itp d index w1
                 else (w1, Inr (VPage (docVar d) index))))"

text \<open>
  \<^verbatim>\<open>*pages()\<close> is a generator; its body runs when the generator is iterated.  The model is
  the iteration to the end, with nothing else touching the document in between.
\<close>

definition pages :: "'s interp \<Rightarrow> doc \<Rightarrow> 's world \<Rightarrow> 's world \<times> (js_error + val list)" where
  "pages itp d =
     ensureOpen d (\<lambda>w.
       case pageCount itp d w of
         (w1, Inl e) \<Rightarrow> (w1, Inl e)
       | (w1, Inr n) \<Rightarrow> each (getPage itp d) (map int [0 ..< nat n]) w1)"

definition deletePage :: "'s interp \<Rightarrow> doc \<Rightarrow> int \<Rightarrow> 's world \<Rightarrow> 's world \<times> (js_error + val)" where
  "deletePage itp d index = ensureOpen d (runPython itp (DeletePage (docVar d) index))"

text \<open>
  \<^verbatim>\<open>deletePages(indices)\<close> receives a reference to an array.  The store holds the arrays of
  numbers that exist; an address is an index into it.  \<^verbatim>\<open>[...indices]\<close> allocates a new array
  with the same elements, \<^verbatim>\<open>.sort((a, b) => b - a)\<close> sorts that new array in place (descending),
  and the loop reads it.
\<close>

type_synonym store = "int list list"

definition spread :: "store \<Rightarrow> nat \<Rightarrow> store \<times> nat" where
  "spread st a = (st @ [st ! a], length st)"

definition sort_desc_in_place :: "store \<Rightarrow> nat \<Rightarrow> store" where
  "sort_desc_in_place st a = st[a := rev (sort (st ! a))]"

definition deletePages ::
  "'s interp \<Rightarrow> doc \<Rightarrow> nat \<Rightarrow> store \<times> 's world \<Rightarrow> (store \<times> 's world) \<times> (js_error + val list)"
where
  "deletePages itp d indices =
     ensureOpen d (\<lambda>(st, w).
       let (st1, sorted) = spread st indices;
           st2 = sort_desc_in_place st1 sorted
       in (case each (\<lambda>i. runPython itp (DeletePage (docVar d) i)) (st2 ! sorted) w of
             (w1, r) \<Rightarrow> ((st2, w1), r)))"

definition insertBlankPage ::
  "'s interp \<Rightarrow> doc \<Rightarrow> int \<Rightarrow> int option \<Rightarrow> int option \<Rightarrow> 's world \<Rightarrow> 's world \<times> (js_error + val)"
where
  "insertBlankPage itp d index width height =
     ensureOpen d (\<lambda>w.
       case runPython itp
              (InsertPage (docVar d) index
                 (case width of None \<Rightarrow> 595 | Some x \<Rightarrow> x)
                 (case height of None \<Rightarrow> 842 | Some x \<Rightarrow> x)) w of
         (w1, Inl e) \<Rightarrow> (w1, Inl e)
       | (w1, Inr v) \<Rightarrow> getPage itp d index w1)"

definition movePage :: "'s interp \<Rightarrow> doc \<Rightarrow> int \<Rightarrow> int \<Rightarrow> 's world \<Rightarrow> 's world \<times> (js_error + val)" where
  "movePage itp d from to = ensureOpen d (runPython itp (MovePage (docVar d) from to))"

definition copyPage :: "'s interp \<Rightarrow> doc \<Rightarrow> int \<Rightarrow> int \<Rightarrow> 's world \<Rightarrow> 's world \<times> (js_error + val)" where
  "copyPage itp d from to = ensureOpen d (runPython itp (CopyPage (docVar d) from to))"

definition selectPages :: "'s interp \<Rightarrow> doc \<Rightarrow> int list \<Rightarrow> 's world \<Rightarrow> 's world \<times> (js_error + val)" where
  "selectPages itp d indices = ensureOpen d (runPython itp (Select (docVar d) indices))"

record insert_options =
  fromPage :: "int option"
  toPage :: "int option"
  startAt :: "int option"
  rotate_by :: "int option"

definition insertPdf ::
  "'s interp \<Rightarrow> doc \<Rightarrow> doc \<Rightarrow> insert_options \<Rightarrow> 's world \<Rightarrow> 's world \<times> (js_error + val)"
where
  "insertPdf itp d sourceDoc options =
     ensureOpen d
       (runPython itp
          (InsertPdf (docVar d) (docVar sourceDoc)
             (case fromPage options of None \<Rightarrow> 0 | Some x \<Rightarrow> x)
             (case toPage options of None \<Rightarrow> - 1 | Some x \<Rightarrow> x)
             (case startAt options of None \<Rightarrow> - 1 | Some x \<Rightarrow> x)
             (case rotate_by options of None \<Rightarrow> 0 | Some x \<Rightarrow> x)))"

subsection \<open>The other accessors and mutators\<close>

text \<open>
  Each of these is \<^verbatim>\<open>this.ensureOpen()\<close> followed by one call of the interpreter; what the
  method does with the answer afterwards (\<^verbatim>\<open>JSON.parse\<close>, base64 decoding) does not touch the
  document and is left out.
\<close>

definition isPdf :: "'s interp \<Rightarrow> doc \<Rightarrow> 's world \<Rightarrow> 's world \<times> (js_error + val)" where
  "isPdf itp d = ensureOpen d (runPython itp (IsPdf (docVar d)))"

definition isEncrypted :: "'s interp \<Rightarrow> doc \<Rightarrow> 's world \<Rightarrow> 's world \<times> (js_error + val)" where
  "isEncrypted itp d = ensureOpen d (runPython itp (IsEncrypted (docVar d)))"

definition needsPass :: "'s interp \<Rightarrow> doc \<Rightarrow> 's world \<Rightarrow> 's world \<times> (js_error + val)" where
  "needsPass itp d = ensureOpen d (runPython itp (NeedsPass (docVar d)))"

definition metadata :: "'s interp \<Rightarrow> doc \<Rightarrow> 's world \<Rightarrow> 's world \<times> (js_error + val)" where
  "metadata itp d = ensureOpen d (runPython itp (Metadata (docVar d)))"

definition setMetadata :: "'s interp \<Rightarrow> doc \<Rightarrow> string \<Rightarrow> 's world \<Rightarrow> 's world \<times> (js_error + val)" where
  "setMetadata itp d metaJson = ensureOpen d (runPython itp (SetMetadata (docVar d) metaJson))"

definition convertToPdf :: "'s interp \<Rightarrow> doc \<Rightarrow> 's world \<Rightarrow> 's world \<times> (js_error + val)" where
  "convertToPdf itp d = ensureOpen d (runPython itp (ConvertToPdf (docVar d)))"

definition getToc :: "'s interp \<Rightarrow> doc \<Rightarrow> 's world \<Rightarrow> 's world \<times> (js_error + val)" where
  "getToc itp d = ensureOpen d (runPython itp (GetToc (docVar d)))"

definition setToc ::
  "'s interp \<Rightarrow> doc \<Rightarrow> (int \<times> string \<times> int) list \<Rightarrow> 's world \<Rightarrow> 's world \<times> (js_error + val)"
where
  "setToc itp d toc = ensureOpen d (runPython itp (SetToc (docVar d) toc))"

definition isFormPdf :: "'s interp \<Rightarrow> doc \<Rightarrow> 's world \<Rightarrow> 's world \<times> (js_error + val)" where
  "isFormPdf itp d = ensureOpen d (runPython itp (IsFormPdf (docVar d)))"

definition getFormFields :: "'s interp \<Rightarrow> doc \<Rightarrow> 's world \<Rightarrow> 's world \<times> (js_error + val)" where
  "getFormFields itp d = ensureOpen d (runPython itp (GetFormFields (docVar d)))"

definition setFormField ::
  "'s interp \<Rightarrow> doc \<Rightarrow> string \<Rightarrow> bool + string \<Rightarrow> 's world \<Rightarrow> 's world \<times> (js_error + val)"
where
  "setFormField itp d name v = ensureOpen d (runPython itp (SetFormField (docVar d) name v))"

definition authenticate :: "'s interp \<Rightarrow> doc \<Rightarrow> string \<Rightarrow> 's world \<Rightarrow> 's world \<times> (js_error + val)" where
  "authenticate itp d password = ensureOpen d (runPython itp (Authenticate (docVar d) password))"

text \<open>
  \<^verbatim>\<open>save\<close>: a flag that is \<^verbatim>\<open>!== false\<close> counts as set when it is absent; the permission value
  is the bitwise or of 4, 8, 16 and 32.
\<close>

record permissions =
  perm_print :: "bool option"
  perm_modify :: "bool option"
  perm_copy :: "bool option"
  perm_annotate :: "bool option"

record encryption =
  ownerPassword :: string
  userPassword :: "string option"
  enc_permissions :: "permissions option"

record save_options =
  garbage :: "int option"
  deflate :: "bool option"
  clean :: "bool option"
  save_encryption :: "encryption option"

definition not_false :: "bool option \<Rightarrow> bool" where
  "not_false b = (b \<noteq> Some False)"

definition permValue :: "permissions option \<Rightarrow> int" where
  "permValue perms =
     (case perms of
        None \<Rightarrow> 4 + 8 + 16 + 32
      | Some p \<Rightarrow>
          (if not_false (perm_print p) then 4 else 0) + (if not_false (perm_modify p) then 8 else 0)
          + (if not_false (perm_copy p) then 16 else 0) + (if not_false (perm_annotate p) then 32 else 0))"

definition save :: "'s interp \<Rightarrow> doc \<Rightarrow> save_options option \<Rightarrow> 's world \<Rightarrow> 's world \<times> (js_error + val)" where
  "save itp d options =
     ensureOpen d
       (runPython itp
          (ToBytes (docVar d)
             (case Option.bind options garbage of None \<Rightarrow> 1 | Some g \<Rightarrow> g)
             (not_false (Option.bind options deflate))
             (not_false (Option.bind options clean))
             (map_option
                (\<lambda>enc. (ownerPassword enc,
                         (case userPassword enc of None \<Rightarrow> [] | Some u \<Rightarrow> u),
                         permValue (enc_permissions enc)))
                (Option.bind options save_encryption))))"

definition saveAsBlob ::
  "'s interp \<Rightarrow> doc \<Rightarrow> save_options option \<Rightarrow> 's world \<Rightarrow> 's world \<times> (js_error + val)"
where
  "saveAsBlob itp d options = save itp d options"

text \<open>
  \<^verbatim>\<open>searchText\<close> reads \<^verbatim>\<open>this.pageCount\<close> before every round of its loop, so the loop ends only
  if the interpreter's answers let it; not returning is the value \<open>None\<close>.  The page handle's
  \<^verbatim>\<open>searchFor\<close> goes to the interpreter directly.
\<close>

partial_function (option) searchText_loop ::
  "'s interp \<Rightarrow> doc \<Rightarrow> string \<Rightarrow> int \<Rightarrow> val list \<Rightarrow> 's world \<Rightarrow> ('s world \<times> (js_error + val)) option"
where
  "searchText_loop itp d query i results w =
     (case pageCount itp d w of
        (w1, Inl e) \<Rightarrow> Some (w1, Inl e)
      | (w1, Inr n) \<Rightarrow>
          if i < n then
            (case getPage itp d i w1 of
               (w2, Inl e) \<Rightarrow> Some (w2, Inl e)
             | (w2, Inr page) \<Rightarrow>
                 (case runPython itp (SearchFor (docVar d) i query) w2 of
                    (w3, Inl e) \<Rightarrow> Some (w3, Inl e)
                  | (w3, Inr (VList rects)) \<Rightarrow>
                      searchText_loop itp d query (i + 1)
                        (results @ map (\<lambda>rect. VList [VInt i, rect, VStr query]) rects) w3
                  | (w3, Inr _) \<Rightarrow> Some (w3, Inl TypeError)))
          else Some (w1, Inr (VList results)))"

definition searchText ::
  "'s interp \<Rightarrow> doc \<Rightarrow> string \<Rightarrow> 's world \<Rightarrow> ('s world \<times> (js_error + val)) option"
where
  "searchText itp d query w =
     (if doc_closed d then Some (w, Inl DocumentClosed)
      else searchText_loop itp d query 0 [] w)"

subsection \<open>Layers\<close>

record ocg_options =
  opt_config :: "int option"
  opt_on :: "bool option"
  opt_intent :: "string option"
  opt_usage :: "string option"

definition with_defaults :: "string \<Rightarrow> ocg_options option \<Rightarrow> ocg_args" where
  "with_defaults name options =
     \<lparr>arg_name = name,
      arg_config = (case Option.bind options opt_config of None \<Rightarrow> - 1 | Some c \<Rightarrow> c),
      arg_on = not_false (Option.bind options opt_on),
      arg_intent = (case Option.bind options opt_intent of None \<Rightarrow> ''View'' | Some s \<Rightarrow> s),
      arg_usage = (case Option.bind options opt_usage of None \<Rightarrow> ''Artwork'' | Some s \<Rightarrow> s)\<rparr>"

definition getLayerConfig :: "'s interp \<Rightarrow> doc \<Rightarrow> 's world \<Rightarrow> 's world \<times> (js_error + val)" where
  "getLayerConfig itp d = ensureOpen d (runPython itp (LayerConfigScript (docVar d)))"

definition addOCG ::
  "'s interp \<Rightarrow> doc \<Rightarrow> string \<Rightarrow> ocg_options option \<Rightarrow> 's world \<Rightarrow> 's world \<times> (js_error + val)"
where
  "addOCG itp d name options =
     ensureOpen d (runPython itp (AddOcg (docVar d) (with_defaults name options)))"

definition addOCGWithParent ::
  "'s interp \<Rightarrow> doc \<Rightarrow> string \<Rightarrow> int \<Rightarrow> ocg_options option \<Rightarrow> 's world \<Rightarrow> 's world \<times> (js_error + val)"
where
  "addOCGWithParent itp d name parentXref options =
     ensureOpen d
       (runPython itp (AddOcgWithParentScript (docVar d) (with_defaults name options) parentXref))"

definition setLayerVisibility ::
  "'s interp \<Rightarrow> doc \<Rightarrow> int \<Rightarrow> bool \<Rightarrow> 's world \<Rightarrow> 's world \<times> (js_error + val)"
where
  "setLayerVisibility itp d ocgXref on =
     ensureOpen d (runPython itp (SetLayerVisibilityScript (docVar d) ocgXref on))"

definition setOC :: "'s interp \<Rightarrow> doc \<Rightarrow> int \<Rightarrow> int \<Rightarrow> 's world \<Rightarrow> 's world \<times> (js_error + val)" where
  "setOC itp d x ocgXref = ensureOpen d (runPython itp (SetOc (docVar d) x ocgXref))"

definition getOC :: "'s interp \<Rightarrow> doc \<Rightarrow> int \<Rightarrow> 's world \<Rightarrow> 's world \<times> (js_error + val)" where
  "getOC itp d x = ensureOpen d (runPython itp (GetOc (docVar d) x))"

definition deleteOCG :: "'s interp \<Rightarrow> doc \<Rightarrow> int \<Rightarrow> 's world \<Rightarrow> 's world \<times> (js_error + val)" where
  "deleteOCG itp d layerNumber = ensureOpen d (runPython itp (DeleteOcgScript (docVar d) layerNumber))"

subsection \<open>\<^verbatim>\<open>close\<close>\<close>

text \<open>
  \<^verbatim>\<open>if (this.closed) return; try { close; unlink } catch { } this.closed = true\<close>: the handle
  after the call, and the world.  \<^verbatim>\<open>close\<close> never throws.
\<close>

definition close :: "'s interp \<Rightarrow> doc \<Rightarrow> 's world \<Rightarrow> doc \<times> 's world" where
  "close itp d w =
     (if doc_closed d then (d, w)
      else (case runPython itp (DocClose (docVar d)) w of
              (w1, Inl e) \<Rightarrow> (d\<lparr>doc_closed := True\<rparr>, w1)
            | (w1, Inr v) \<Rightarrow> (d\<lparr>doc_closed := True\<rparr>, fst (runPython itp (FsUnlink (inputPath d)) w1))))"

subsection \<open>All methods but \<^verbatim>\<open>close\<close> and \<^verbatim>\<open>searchText\<close>, as one family\<close>

datatype doc_op =
    OpPageCount | OpIsPdf | OpIsEncrypted | OpNeedsPass | OpMetadata | OpSetMetadata string
  | OpGetPage int | OpPages | OpDeletePage int | OpDeletePages "int list"
  | OpInsertBlankPage int "int option" "int option" | OpMovePage int int | OpCopyPage int int
  | OpSelectPages "int list" | OpInsertPdf doc insert_options | OpConvertToPdf
  | OpGetToc | OpSetToc "(int \<times> string \<times> int) list" | OpIsFormPdf | OpGetFormFields
  | OpSetFormField string "bool + string" | OpAuthenticate string
  | OpSave "save_options option" | OpSaveAsBlob "save_options option"
  | OpGetLayerConfig | OpAddOCG string "ocg_options option"
  | OpAddOCGWithParent string int "ocg_options option" | OpSetLayerVisibility int bool
  | OpSetOC int int | OpGetOC int | OpDeleteOCG int

definition as_val :: "'w \<times> (js_error + 'a) \<Rightarrow> ('a \<Rightarrow> val) \<Rightarrow> 'w \<times> (js_error + val)" where
  "as_val r f = (case r of (w, Inl e) \<Rightarrow> (w, Inl e) | (w, Inr x) \<Rightarrow> (w, Inr (f x)))"

fun call_op :: "'s interp \<Rightarrow> doc \<Rightarrow> doc_op \<Rightarrow> 's world \<Rightarrow> 's world \<times> (js_error + val)" where
  "call_op itp d OpPageCount w = as_val (pageCount itp d w) VInt"
| "call_op itp d OpIsPdf w = isPdf itp d w"
| "call_op itp d OpIsEncrypted w = isEncrypted itp d w"
| "call_op itp d OpNeedsPass w = needsPass itp d w"
| "call_op itp d OpMetadata w = metadata itp d w"
| "call_op itp d (OpSetMetadata m) w = setMetadata itp d m w"
| "call_op itp d (OpGetPage i) w = getPage itp d i w"
| "call_op itp d OpPages w = as_val (pages itp d w) VList"
| "call_op itp d (OpDeletePage i) w = deletePage itp d i w"
| "call_op itp d (OpDeletePages idxs) w =
     (case deletePages itp d 0 ([idxs], w) of ((st, w1), r) \<Rightarrow> as_val (w1, r) (\<lambda>vs. VNone))"
| "call_op itp d (OpInsertBlankPage i width height) w = insertBlankPage itp d i width height w"
| "call_op itp d (OpMovePage a b) w = movePage itp d a b w"
| "call_op itp d (OpCopyPage a b) w = copyPage itp d a b w"
| "call_op itp d (OpSelectPages idxs) w = selectPages itp d idxs w"
| "call_op itp d (OpInsertPdf src options) w = insertPdf itp d src options w"
| "call_op itp d OpConvertToPdf w = convertToPdf itp d w"
| "call_op itp d OpGetToc w = getToc itp d w"
| "call_op itp d (OpSetToc toc) w = setToc itp d toc w"
| "call_op itp d OpIsFormPdf w = isFormPdf itp d w"
| "call_op itp d OpGetFormFields w = getFormFields itp d w"
| "call_op itp d (OpSetFormField name v) w = setFormField itp d name v w"
| "call_op itp d (OpAuthenticate password) w = authenticate itp d password w"
| "call_op itp d (OpSave options) w = save itp d options w"
| "call_op itp d (OpSaveAsBlob options) w = saveAsBlob itp d options w"
| "call_op itp d OpGetLayerConfig w = getLayerConfig itp d w"
| "call_op itp d (OpAddOCG name options) w = addOCG itp d name options w"
| "call_op itp d (OpAddOCGWithParent name parentXref options) w =
     addOCGWithParent itp d name parentXref options w"
| "call_op itp d (OpSetLayerVisibility x on) w = setLayerVisibility itp d x on w"
| "call_op itp d (OpSetOC x ocgXref) w = setOC itp d x ocgXref w"
| "call_op itp d (OpGetOC x) w = getOC itp d x w"
| "call_op itp d (OpDeleteOCG n) w = deleteOCG itp d n w"

subsection \<open>An example interpreter\<close>

text \<open>
  An interpreter whose state is the number of pages of the one open document; it serves the
  concrete evaluations.  Its \<^verbatim>\<open>delete_page\<close> accepts an index from \<open>-n\<close> to \<open>n - 1\<close> and raises
  \<^verbatim>\<open>ValueError\<close> otherwise, \<^verbatim>\<open>insert_page\<close> adds a page, and every other call returns \<^verbatim>\<open>None\<close>.
\<close>

definition page_engine :: "int interp" where
  "page_engine =
     \<lparr>page_count = (\<lambda>dv n. (n, Inr n)),
      exec = (\<lambda>c n.
        case c of
          DeletePage dv i \<Rightarrow> if - n \<le> i \<and> i < n then (n - 1, Inr VNone) else (n, Inl ValueError)
        | InsertPage dv i wd ht \<Rightarrow> (n + 1, Inr VNone)
        | _ \<Rightarrow> (n, Inr VNone))\<rparr>"

definition open_doc :: doc where
  "open_doc = \<lparr>docVar = ''_doc1'', inputPath = ''/input_1'', doc_closed = False\<rparr>"

definition pages_world :: "int \<Rightarrow> int world" where
  "pages_world n = \<lparr>py = n, calls = []\<rparr>"

section \<open>The facade (\<^verbatim>\<open>pymupdf.ts\<close>)\<close>

text \<open>
  The facade owns the counter that names the interpreter's variables and files.  \<^verbatim>\<open>open\<close> and
  \<^verbatim>\<open>create\<close> call the interpreter directly; what they raise reaches the caller.
\<close>

record facade =
  docCounter :: nat

definition facade_open ::
  "'s interp \<Rightarrow> facade \<times> 's world \<Rightarrow> (facade \<times> 's world) \<times> (js_error + doc)"
where
  "facade_open itp = (\<lambda>(f, w).
     let docId = Suc (docCounter f);
         f1 = f\<lparr>docCounter := docId\<rparr>;
         dv = ''_doc'' @ str_nat docId;
         path = ''/input_'' @ str_nat docId
     in (case runPython itp (FsWriteFile path) w of
           (w1, Inl e) \<Rightarrow> ((f1, w1), Inl e)
         | (w1, Inr u) \<Rightarrow>
             (case runPython itp (OpenDoc dv path) w1 of
                (w2, Inl e) \<Rightarrow> ((f1, w2), Inl e)
              | (w2, Inr v) \<Rightarrow>
                  ((f1, w2), Inr \<lparr>docVar = dv, inputPath = path, doc_closed = False\<rparr>))))"

definition facade_create ::
  "'s interp \<Rightarrow> facade \<times> 's world \<Rightarrow> (facade \<times> 's world) \<times> (js_error + doc)"
where
  "facade_create itp = (\<lambda>(f, w).
     let docId = Suc (docCounter f);
         f1 = f\<lparr>docCounter := docId\<rparr>;
         dv = ''_doc'' @ str_nat docId;
         path = ''/input_'' @ str_nat docId
     in (case runPython itp (NewDoc dv) w of
           (w1, Inl e) \<Rightarrow> ((f1, w1), Inl e)
         | (w1, Inr v) \<Rightarrow>
             ((f1, w1), Inr \<lparr>docVar = dv, inputPath = path, doc_closed = False\<rparr>)))"

subsection \<open>\<^verbatim>\<open>split\<close>\<close>

text \<open>
  The body of the loop for a range that is not skipped: \<^verbatim>\<open>create\<close>, \<^verbatim>\<open>insertPdf\<close>,
  \<^verbatim>\<open>saveAsBlob\<close>, \<^verbatim>\<open>close\<close>.
\<close>

definition split_part ::
  "'s interp \<Rightarrow> doc \<Rightarrow> int \<Rightarrow> int \<Rightarrow> facade \<times> 's world \<Rightarrow> (facade \<times> 's world) \<times> (js_error + val)"
where
  "split_part itp source start endp fw =
     (case facade_create itp fw of
        (fw1, Inl e) \<Rightarrow> (fw1, Inl e)
      | ((f1, w1), Inr newDoc) \<Rightarrow>
          (case insertPdf itp newDoc source
                  \<lparr>fromPage = Some start, toPage = Some endp, startAt = None, rotate_by = None\<rparr>
                  w1 of
             (w2, Inl e) \<Rightarrow> ((f1, w2), Inl e)
           | (w2, Inr u) \<Rightarrow>
               (case saveAsBlob itp newDoc None w2 of
                  (w3, Inl e) \<Rightarrow> ((f1, w3), Inl e)
                | (w3, Inr blob) \<Rightarrow> ((f1, snd (close itp newDoc w3)), Inr blob))))"

text \<open>\<^verbatim>\<open>for (const range of ranges) { ... }\<close>; a range is \<open>(start, end)\<close>.\<close>

fun split_ranges ::
  "'s interp \<Rightarrow> doc \<Rightarrow> int \<Rightarrow> (int \<times> int) list \<Rightarrow> facade \<times> 's world
     \<Rightarrow> (facade \<times> 's world) \<times> (js_error + val list)"
where
  "split_ranges itp source pgs [] fw = (fw, Inr [])"
| "split_ranges itp source pgs (rg # ranges) fw =
     (let start = max 0 (fst rg);
          endp = min (pgs - 1) (snd rg)
      in if start > endp then split_ranges itp source pgs ranges fw
         else (case split_part itp source start endp fw of
                 (fw1, Inl e) \<Rightarrow> (fw1, Inl e)
               | (fw1, Inr blob) \<Rightarrow>
                   (case split_ranges itp source pgs ranges fw1 of
                      (fw2, Inl e) \<Rightarrow> (fw2, Inl e)
                    | (fw2, Inr blobs) \<Rightarrow> (fw2, Inr (blob # blobs)))))"

definition split_pdf ::
  "'s interp \<Rightarrow> (int \<times> int) list \<Rightarrow> facade \<times> 's world \<Rightarrow> (facade \<times> 's world) \<times> (js_error + val list)"
where
  "split_pdf itp ranges fw =
     (case facade_open itp fw of
        (fw1, Inl e) \<Rightarrow> (fw1, Inl e)
      | ((f1, w1), Inr source) \<Rightarrow>
          (case pageCount itp source w1 of
             (w2, Inl e) \<Rightarrow> ((f1, w2), Inl e)
           | (w2, Inr pgs) \<Rightarrow>
               (case split_ranges itp source pgs ranges (f1, w2) of
                  (fw3, Inl e) \<Rightarrow> (fw3, Inl e)
                | ((f3, w3), Inr results) \<Rightarrow> ((f3, snd (close itp source w3)), Inr results))))"


subsection \<open>JavaScript numbers in \<^verbatim>\<open>compressPdf\<close>\<close>

text \<open>
  A JavaScript number is an IEEE 754 binary64 value.  The sizes that \<^verbatim>\<open>compressPdf\<close> computes
  with are integers below \<open>2\<^sup>5\<^sup>3\<close>, and every value it derives from them is zero or a
  normal number, so a number is modelled by the rational it denotes and every arithmetic
  operation by the exact operation followed by \<open>fl\<close>, rounding to the nearest value with a
  53-bit significand, ties to the even significand.  \<open>expo x\<close> is the exponent of \<open>x\<close>, the
  integer \<open>e\<close> with \<open>2\<^sup>e \<le> |x| < 2\<^sup>e\<^sup>+\<^sup>1\<close>.  \<^verbatim>\<open>Math.round\<close> returns the nearest integer, the
  larger one in a tie.
\<close>

definition expo :: "rat \<Rightarrow> int" where
  "expo x =
     (let (a, b) = quotient_of \<bar>x\<bar>;
          k = bitlen a - bitlen b
      in if power_int 2 k \<le> \<bar>x\<bar> then k else k - 1)"

definition round_even :: "rat \<Rightarrow> int" where
  "round_even m =
     (let f = \<lfloor>m\<rfloor>; r = m - of_int f
      in if r < 1 / 2 then f else if 1 / 2 < r then f + 1 else if even f then f else f + 1)"

definition fl :: "rat \<Rightarrow> rat" where
  "fl x = (if x = 0 then 0
           else (let q = power_int 2 (expo x - 52) in of_int (round_even (x / q)) * q))"

definition js_round :: "rat \<Rightarrow> int" where
  "js_round x = \<lfloor>x + 1 / 2\<rfloor>"

text \<open>
  \<^verbatim>\<open>Math.round(((savings / originalSize) * 100) * 10)\<close>, the integer that \<^verbatim>\<open>compressPdf\<close> divides
  by 10.
\<close>

definition percent10 :: "int \<Rightarrow> int \<Rightarrow> int" where
  "percent10 s n = js_round (fl (fl (fl (of_int s / of_int n) * 100) * 10))"

subsection \<open>\<^verbatim>\<open>compressPdf\<close>\<close>

text \<open>
  The script that \<^verbatim>\<open>compressPdf\<close> generates, over the engine's calls: open the input, read
  the page count, scrub, rewrite the images and subset the fonts if asked to, and serialise.
  The other options are arguments of these calls and stay inside them.  The script returns
  the new bytes, their number and the page count it read at the start.
\<close>

record 'd pdf_engine =
  pe_open :: "nat list \<Rightarrow> py_exn + 'd"
  pe_page_count :: "'d \<Rightarrow> int"
  pe_scrub :: "'d \<Rightarrow> py_exn + 'd"
  pe_rewrite_images :: "'d \<Rightarrow> py_exn + 'd"
  pe_subset_fonts :: "'d \<Rightarrow> py_exn + 'd"
  pe_tobytes :: "'d \<Rightarrow> py_exn + nat list"

definition compress_script ::
  "'d pdf_engine \<Rightarrow> bool \<Rightarrow> bool \<Rightarrow> nat list \<Rightarrow> py_exn + (nat list \<times> int \<times> int)"
where
  "compress_script eng compressImages subsetFonts input =
     (case pe_open eng input of
        Inl e \<Rightarrow> Inl e
      | Inr doc \<Rightarrow>
          (let original_page_count = pe_page_count eng doc
           in (case pe_scrub eng doc of
                 Inl e \<Rightarrow> Inl e
               | Inr d1 \<Rightarrow>
                   (case (if compressImages then pe_rewrite_images eng d1 else Inr d1) of
                      Inl e \<Rightarrow> Inl e
                    | Inr d2 \<Rightarrow>
                        (case (if subsetFonts then pe_subset_fonts eng d2 else Inr d2) of
                           Inl e \<Rightarrow> Inl e
                         | Inr d3 \<Rightarrow>
                             (case pe_tobytes eng d3 of
                                Inl e \<Rightarrow> Inl e
                              | Inr pdf_bytes \<Rightarrow>
                                  Inr (pdf_bytes, int (length pdf_bytes),
                                       original_page_count)))))))"

record compress_options =
  images_enabled :: "bool option"
  subset_fonts :: "bool option"

record compress_result =
  blob :: "nat list"
  originalSize :: int
  compressedSize :: int
  savings :: int
  savingsPercent :: rat
  cr_pageCount :: int

text \<open>
  \<^verbatim>\<open>compressPdf\<close>: \<^verbatim>\<open>originalSize = buf.byteLength\<close> is taken before the interpreter runs.
  Writing the input to the interpreter's file system and removing it afterwards are part of
  opening it here.
\<close>

definition compressPdf ::
  "'d pdf_engine \<Rightarrow> compress_options \<Rightarrow> nat list \<Rightarrow> js_error + compress_result"
where
  "compressPdf eng options pdf =
     (let size = int (length pdf)
      in (case compress_script eng (not_false (images_enabled options))
                 (not_false (subset_fonts options)) pdf of
            Inl e \<Rightarrow> Inl (PythonError e)
          | Inr (bytes, compressed_size, pages_read) \<Rightarrow>
              (let saved = size - compressed_size;
                   percent = (if 0 < size then fl (fl (of_int saved / of_int size) * 100) else 0)
               in Inr \<lparr>blob = bytes, originalSize = size, compressedSize = compressed_size,
                        savings = saved,
                        savingsPercent = fl (of_int (js_round (fl (percent * 10))) / 10),
                        cr_pageCount = pages_read\<rparr>)))"

text \<open>
  The value the specification gives for \<^verbatim>\<open>savingsPercent\<close>,
  \<^verbatim>\<open>round((N - compressedSize) / N * 1000) / 10\<close>, with the same arithmetic; it is not a finite
  number when \<open>N\<close> is 0.
\<close>

definition spec_savingsPercent :: "int \<Rightarrow> int \<Rightarrow> rat option" where
  "spec_savingsPercent N compressed =
     (if N = 0 then None
      else Some (fl (of_int (js_round (fl (fl (of_int (N - compressed) / of_int N) * 1000))) / 10)))"

text \<open>
  An example engine: a document is its bytes, it has \<open>p\<close> pages, and serialising keeps the
  first \<open>k\<close> bytes.
\<close>

definition trim_engine :: "nat \<Rightarrow> int \<Rightarrow> (nat list) pdf_engine" where
  "trim_engine k p =
     \<lparr>pe_open = Inr, pe_page_count = (\<lambda>d. p), pe_scrub = Inr, pe_rewrite_images = Inr,
      pe_subset_fonts = Inr, pe_tobytes = (\<lambda>d. Inr (take k d))\<rparr>"

definition default_options :: compress_options where
  "default_options = \<lparr>images_enabled = None, subset_fonts = None\<rparr>"

subsection \<open>What the read path keeps\<close>

text \<open>The fields of a descriptor that come from \<^verbatim>\<open>layer_ui_configs\<close>.\<close>

definition flat :: "ocg_info \<Rightarrow> int \<times> string \<times> bool \<times> bool" where
  "flat info = (ocg_number info, ocg_text info, ocg_on info, ocg_locked info)"

definition flat_view :: "read_state \<Rightarrow> (int \<times> int \<times> string \<times> bool \<times> bool) list" where
  "flat_view st = map (\<lambda>p. (fst p, flat (snd p))) (layer_map st)"

text \<open>
  The invariant of the script's state.  The keys of \<^verbatim>\<open>layer_map\<close> are distinct and each entry
  carries its key; the counter equals the number of assignments made; an entry that no
  assignment touched has depth, parent and display order 0; and an entry that was assigned
  holds the depth and parent of its latest assignment and, as display order, the position of
  that assignment in the history.
\<close>

definition tracked :: "read_state \<Rightarrow> bool" where
  "tracked st \<longleftrightarrow>
     distinct (map fst (layer_map st)) \<and>
     display_order st = length (visited st) \<and>
     fst ` set (visited st) \<subseteq> fst ` set (layer_map st) \<and>
     (\<forall>num info. map_of (layer_map st) num = Some info \<longrightarrow>
        ocg_number info = num \<and>
        (num \<notin> fst ` set (visited st) \<longrightarrow>
           ocg_depth info = 0 \<and> ocg_parentXref info = 0 \<and> ocg_displayOrder info = 0) \<and>
        (num \<in> fst ` set (visited st) \<longrightarrow>
           ocg_displayOrder info < length (visited st) \<and>
           visited st ! ocg_displayOrder info = (num, ocg_depth info, ocg_parentXref info) \<and>
           (\<forall>j. ocg_displayOrder info < j \<and> j < length (visited st) \<longrightarrow>
                fst (visited st ! j) \<noteq> num)))"

subsection \<open>More example documents\<close>

text \<open>
  Group A (xref 5) at the root with child B (xref 6); group C (xref 7) is in the group list
  but not in the ordering array.
\<close>

definition abc_layers :: "layer_ui list" where
  "abc_layers = [layer 0 ''A'', layer 1 ''B'', layer 2 ''C'']"


text \<open>The same three groups, nested three deep.\<close>

definition nested_doc :: engine where
  "nested_doc = doc_with abc_layers ''[5 0 R 6 0 R 7 0 R]'' ''[5 0 R [6 0 R [7 0 R]]]''
                  [(5, ''(A)''), (6, ''(B)''), (7, ''(C)'')]"

text \<open>A document without \<^verbatim>\<open>OCProperties\<close>, and one whose engine raises when asked for it.\<close>

definition bare_doc :: engine where
  "bare_doc =
     \<lparr>layer_ui_configs = Inr abc_layers, pdf_catalog = Inr 1,
      xref_get_key = (\<lambda>x key. Inr (''null'', ''null''))\<rparr>"

definition broken_doc :: engine where
  "broken_doc =
     \<lparr>layer_ui_configs = Inr abc_layers, pdf_catalog = Inr 1,
      xref_get_key = (\<lambda>x key. Inl EngineError)\<rparr>"




section \<open>Properties of the write path\<close>

lemma insert_child_not_found:
  "str_find final_order p_ref = None \<Longrightarrow> insert_child final_order p_ref c_ref = final_order"
  by (simp add: insert_child_def)

lemma remove_child_length: "length (remove_child s dep removed c_ref) \<le> length s"
proof (induction s dep removed c_ref rule: remove_child.induct)
  case (1 dep removed c_ref)
  then show ?case by simp
next
  case (2 ch rest dep removed c_ref)
  have drop_le: "length (dropWhile isspace (drop (length c_ref) (ch # rest))) \<le> length (ch # rest)"
    by (rule order_trans [OF length_dropWhile_le]) simp
  show ?case
  proof (cases "ch = CHR ''[''")
    case True
    with 2 show ?thesis by simp
  next
    case nopen: False
    show ?thesis
    proof (cases "ch = CHR '']''")
      case True
      with 2 nopen show ?thesis by simp
    next
      case nclose: False
      show ?thesis
      proof (cases "\<not> removed \<and> dep = 1 \<and> child_at (ch # rest) c_ref")
        case True
        from "2.IH"(3) [OF nopen nclose True] drop_le
        have "length (remove_child (dropWhile isspace (drop (length c_ref) (ch # rest))) dep True c_ref)
              \<le> length (ch # rest)"
          by (rule order_trans)
        with nopen nclose True show ?thesis by simp
      next
        case False
        from "2.IH"(4) [OF nopen nclose False] nopen nclose False show ?thesis by auto
      qed
    qed
  qed
qed

text \<open>
  C1 (as amended).  When the parent's token cannot be found in the text that step 1 leaves,
  \<^verbatim>\<open>modify_pdf_order\<close> inserts nothing and returns that text, which is never longer than the
  text it was given; the script still writes it back and returns the new group's xref.  It
  raises nothing of its own: the only exception left is one the engine raises from
  \<^verbatim>\<open>xref_set_key\<close>.
\<close>

theorem addOCGWithParent_parent_not_found:
  assumes "add_ocg w d args = (d1, Inr child_xref)"
    and "locate_write pl (view w d1) = Inr (Some order_str, Some order_xref, Some order_key_path)"
    and "order_str \<noteq> []" and "order_xref \<noteq> 0"
    and "str_find (remove_child order_str 0 False (ref_token child_xref)) (ref_token parentXref) = None"
  shows "modify_pdf_order order_str (ref_token parentXref) (ref_token child_xref)
           = remove_child order_str 0 False (ref_token child_xref)
       \<and> length (modify_pdf_order order_str (ref_token parentXref) (ref_token child_xref))
           \<le> length order_str
       \<and> addOCGWithParent_script pl w args parentXref d =
           (case xref_set_key w d1 order_xref order_key_path
                   (remove_child order_str 0 False (ref_token child_xref)) of
              (d2, Some e) \<Rightarrow> (d2, Inl e)
            | (d2, None) \<Rightarrow> (d2, Inr child_xref))"
proof -
  have m: "modify_pdf_order order_str (ref_token parentXref) (ref_token child_xref)
             = remove_child order_str 0 False (ref_token child_xref)"
    using assms(3,5) by (simp add: modify_pdf_order_def insert_child_not_found)
  moreover have "length (remove_child order_str 0 False (ref_token child_xref)) \<le> length order_str"
    by (rule remove_child_length)
  moreover have "addOCGWithParent_script pl w args parentXref d =
           (case xref_set_key w d1 order_xref order_key_path
                   (remove_child order_str 0 False (ref_token child_xref)) of
              (d2, Some e) \<Rightarrow> (d2, Inl e)
            | (d2, None) \<Rightarrow> (d2, Inr child_xref))"
    using assms(1-4) m by (simp add: addOCGWithParent_script_def)
  ultimately show ?thesis by simp
qed

lemma one_group_added:
  "add_ocg example_store one_group (new_group ''B'') =
     (\<lparr>ex_layers = [layer 0 ''A'', layer 1 ''B''], ex_ocgs = ''[5 0 R 7 0 R]'',
       ex_order = ''[5 0 R 7 0 R]'', ex_names = [(5, ''(A)''), (7, ''(B)'')], ex_next = 8\<rparr>,
      Inr 7)"
  by code_simp

lemma one_group_located:
  "locate_write limits
     (view example_store
        \<lparr>ex_layers = [layer 0 ''A'', layer 1 ''B''], ex_ocgs = ''[5 0 R 7 0 R]'',
          ex_order = ''[5 0 R 7 0 R]'', ex_names = [(5, ''(A)''), (7, ''(B)'')], ex_next = 8\<rparr>)
   = Inr (Some ''[5 0 R 7 0 R]'', Some 1, Some ''OCProperties/D/Order'')"
  by code_simp

lemma one_group_cleaned:
  "remove_child ''[5 0 R 7 0 R]'' 0 False (ref_token 7) = ''[5 0 R ]''"
  by code_simp

theorem addOCGWithParent_parent_not_found_witness:
  "str_find (remove_child ''[5 0 R 7 0 R]'' 0 False (ref_token 7)) (ref_token 9) = None
   \<and> modify_pdf_order ''[5 0 R 7 0 R]'' (ref_token 9) (ref_token 7) = ''[5 0 R ]''
   \<and> addOCGWithParent_script limits example_store (new_group ''B'') 9 one_group =
       (\<lparr>ex_layers = [layer 0 ''A'', layer 1 ''B''], ex_ocgs = ''[5 0 R 7 0 R]'',
         ex_order = ''[5 0 R ]'', ex_names = [(5, ''(A)''), (7, ''(B)'')], ex_next = 8\<rparr>,
        Inr 7)"
proof -
  have nf: "str_find (remove_child ''[5 0 R 7 0 R]'' 0 False (ref_token 7)) (ref_token 9) = None"
    by code_simp
  have ne: "''[5 0 R 7 0 R]'' \<noteq> []" by simp
  have nz: "(1::nat) \<noteq> 0" by simp
  have w: "xref_set_key example_store
             \<lparr>ex_layers = [layer 0 ''A'', layer 1 ''B''], ex_ocgs = ''[5 0 R 7 0 R]'',
               ex_order = ''[5 0 R 7 0 R]'', ex_names = [(5, ''(A)''), (7, ''(B)'')], ex_next = 8\<rparr>
             1 ''OCProperties/D/Order'' ''[5 0 R ]''
           = (\<lparr>ex_layers = [layer 0 ''A'', layer 1 ''B''], ex_ocgs = ''[5 0 R 7 0 R]'',
               ex_order = ''[5 0 R ]'', ex_names = [(5, ''(A)''), (7, ''(B)'')], ex_next = 8\<rparr>,
              None)"
    by code_simp
  note found = addOCGWithParent_parent_not_found [OF one_group_added one_group_located ne nz nf]
  have "modify_pdf_order ''[5 0 R 7 0 R]'' (ref_token 9) (ref_token 7) = ''[5 0 R ]''"
    using found [THEN conjunct1] by (simp only: one_group_cleaned)
  moreover have "addOCGWithParent_script limits example_store (new_group ''B'') 9 one_group =
       (\<lparr>ex_layers = [layer 0 ''A'', layer 1 ''B''], ex_ocgs = ''[5 0 R 7 0 R]'',
         ex_order = ''[5 0 R ]'', ex_names = [(5, ''(A)''), (7, ''(B)'')], ex_next = 8\<rparr>,
        Inr 7)"
    using found [THEN conjunct2, THEN conjunct2]
    by (simp only: one_group_cleaned w prod.case option.case)
  ultimately show ?thesis using nf by (simp only: simp_thms)
qed

text \<open>
  C1 as stated fails.  After \<^verbatim>\<open>add_ocg\<close> the ordering array of the example is
  \<^verbatim>\<open>[5 0 R 7 0 R]\<close>; the parent token \<^verbatim>\<open>9 0 R\<close> occurs nowhere in it.  The call returns the new
  xref without an error, but the array written back is \<^verbatim>\<open>[5 0 R ]\<close>: the write step was not
  skipped, and the new group's reference is no longer in the array at all.
\<close>

theorem addOCGWithParent_parent_not_found_counterexample:
  "str_find ''[5 0 R 7 0 R]'' (ref_token 9) = None
   \<and> ex_order (fst (add_ocg example_store one_group (new_group ''B''))) = ''[5 0 R 7 0 R]''
   \<and> snd (addOCGWithParent_script limits example_store (new_group ''B'') 9 one_group) = Inr 7
   \<and> ex_order (fst (addOCGWithParent_script limits example_store (new_group ''B'') 9 one_group))
       = ''[5 0 R ]''
   \<and> str_find ''[5 0 R ]'' (ref_token 7) = None"
  by code_simp

text \<open>
  C2 fails on the code.  The example holds the groups 15 and 5 at the root, in that order;
  a new group (xref 20) is added under parent 5.  \<^verbatim>\<open>final_order.find(p_ref)\<close> finds the text
  \<^verbatim>\<open>5 0 R\<close> first inside \<^verbatim>\<open>15 0 R\<close>, so the child array is opened behind group 15, and the
  read path reports the new group at depth 1 with parent 15 while group 5 has no child.
\<close>

theorem addOCGWithParent_parent_inside_longer_xref:
  "ex_order (fst (add_ocg example_store two_groups (new_group ''B''))) = ''[15 0 R 5 0 R 20 0 R]''
   \<and> snd (addOCGWithParent_script limits example_store (new_group ''B'') 5 two_groups) = Inr 20
   \<and> ex_order (fst (addOCGWithParent_script limits example_store (new_group ''B'') 5 two_groups))
       = ''[15 0 R [20 0 R] 5 0 R ]''
   \<and> getLayerConfig_script limits
        (view example_store
           (fst (addOCGWithParent_script limits example_store (new_group ''B'') 5 two_groups)))
       = Inr [\<lparr>ocg_number = 0, ocg_text = ''Q'', ocg_on = True, ocg_locked = False,
                ocg_depth = 0, ocg_xref = 15, ocg_parentXref = 0, ocg_displayOrder = 0\<rparr>,
              \<lparr>ocg_number = 2, ocg_text = ''B'', ocg_on = True, ocg_locked = False,
                ocg_depth = 1, ocg_xref = 20, ocg_parentXref = 15, ocg_displayOrder = 1\<rparr>,
              \<lparr>ocg_number = 1, ocg_text = ''P'', ocg_on = True, ocg_locked = False,
                ocg_depth = 0, ocg_xref = 5, ocg_parentXref = 0, ocg_displayOrder = 2\<rparr>]"
  by code_simp

section \<open>Properties of the read path\<close>


lemma parse_loop_invariant:
  assumes step: "\<And>x d p st st' e. P st \<Longrightarrow> assign_order x d p st = (st', e) \<Longrightarrow> P st'"
  shows "P st \<Longrightarrow> P (fst (parse_loop pl frames s dep parent lx st))"
proof (induction pl frames s dep parent lx st rule: parse_loop.induct)
  case (1 pl frames dep parent_xref last_xref st)
  then show ?case by (simp add: parse_loop.simps)
next
  case (2 pl frames ch rest dep parent_xref last_xref st)
  note IH = "2.IH"
  show ?case
  proof (cases "ch = CHR ''[''")
    case True
    show ?thesis
    proof (cases "frames = 0")
      case True
      with \<open>ch = CHR ''[''\<close> "2.prems" show ?thesis by (simp add: parse_loop.simps)
    next
      case False
      obtain st1 e1 where r1: "parse_loop pl (frames - 1) (take (scan_brackets rest 1 - 1) rest) (dep + 1) last_xref 0 st = (st1, e1)"
        by (cases "parse_loop pl (frames - 1) (take (scan_brackets rest 1 - 1) rest) (dep + 1) last_xref 0 st") auto
      have P1: "P st1"
        using IH(1) [OF True refl refl False "2.prems"] r1 by (simp add: parse_loop.simps)
      show ?thesis
      proof (cases e1)
        case None
        have "P (fst (parse_loop pl frames (drop (scan_brackets rest 1) rest) dep parent_xref last_xref st1))"
          using IH(2) [OF True refl refl False r1 [symmetric] None P1] .
        then show ?thesis using True False r1 None by (simp add: parse_loop.simps)
      next
        case (Some e)
        then show ?thesis using True False r1 P1 by (simp add: parse_loop.simps)
      qed
    qed
  next
    case nopen: False
    show ?thesis
    proof (cases "ch = CHR '']''")
      case True
      then show ?thesis using nopen IH(3) [OF nopen True "2.prems"] by (simp add: parse_loop.simps)
    next
      case nclose: False
      show ?thesis
      proof (cases "isdigit ch")
        case False
        then show ?thesis using nopen nclose IH(6) [OF nopen nclose False "2.prems"] by (simp add: parse_loop.simps)
      next
        case dig: True
        show ?thesis
        proof (cases "re_ref_zero (ch # rest)")
          case None
          then show ?thesis using nopen nclose dig IH(4) [OF nopen nclose dig None "2.prems"] by (simp add: parse_loop.simps)
        next
          case (Some ga)
          obtain g after where ga: "ga = (g, after)" by (cases ga)
          show ?thesis
          proof (cases "py_int pl g")
            case (Inl e)
            then show ?thesis using nopen nclose dig Some ga "2.prems" by (simp add: parse_loop.simps)
          next
            case (Inr x)
            obtain st1 e1 where a1: "assign_order x dep parent_xref st = (st1, e1)"
              by (cases "assign_order x dep parent_xref st") auto
            have P1: "P st1" using step [OF "2.prems" a1] .
            show ?thesis
            proof (cases e1)
              case None
              have "P (fst (parse_loop pl frames after dep parent_xref x st1))"
                using IH(5) [OF nopen nclose dig Some [unfolded ga] refl Inr a1 [symmetric] None P1] .
              then show ?thesis using nopen nclose dig Some ga Inr a1 None by (simp add: parse_loop.simps)
            next
              case (Some e)
              then show ?thesis using nopen nclose dig \<open>re_ref_zero (ch # rest) = Some ga\<close> ga Inr a1 P1 by (simp add: parse_loop.simps)
            qed
          qed
        qed
      qed
    qed
  qed
qed


lemma tracked_assign:
  assumes t: "tracked st" and a: "assign_order x d p st = (st', e)"
  shows "tracked st'"
proof (cases "map_of (xref_to_num st) x")
  case None
  with a t show ?thesis by (simp add: assign_order_def)
next
  case (Some num)
  show ?thesis
  proof (cases "map_of (layer_map st) num")
    case None
    with a t Some show ?thesis by (simp add: assign_order_def)
  next
    case (Some info0)
    let ?v = "visited st"
    let ?info = "info0\<lparr>ocg_depth := d, ocg_parentXref := p, ocg_displayOrder := display_order st\<rparr>"
    have st': "st' = st\<lparr>layer_map := AList.update num ?info (layer_map st),
                         display_order := Suc (display_order st),
                         visited := ?v @ [(num, d, p)]\<rparr>"
      using a \<open>map_of (xref_to_num st) x = Some num\<close> Some by (simp add: assign_order_def)
    have cnt: "display_order st = length ?v" and dist: "distinct (map fst (layer_map st))"
      using t by (simp_all add: tracked_def)
    have num0: "ocg_number info0 = num" using t Some by (simp add: tracked_def)
    have "distinct (map fst (layer_map st'))"
      using dist by (simp add: st' distinct_update)
    moreover have "display_order st' = length (visited st')"
      by (simp add: st' cnt)
    moreover have "fst ` set (visited st') \<subseteq> fst ` set (layer_map st')"
    proof -
      have sub: "fst ` set ?v \<subseteq> fst ` set (layer_map st)"
        using t by (simp add: tracked_def)
      have kin: "num \<in> fst ` set (layer_map st)"
        using Some by (metis map_of_SomeD image_eqI fst_conv)
      have "set (map fst (layer_map st')) = set (map fst (layer_map st))"
        using kin by (simp add: st' update_keys)
      then have "fst ` set (layer_map st') = fst ` set (layer_map st)" by simp
      with sub kin show ?thesis by (auto simp: st')
    qed
    moreover have "\<forall>n info. map_of (layer_map st') n = Some info \<longrightarrow>
        ocg_number info = n \<and>
        (n \<notin> fst ` set (visited st') \<longrightarrow>
           ocg_depth info = 0 \<and> ocg_parentXref info = 0 \<and> ocg_displayOrder info = 0) \<and>
        (n \<in> fst ` set (visited st') \<longrightarrow>
           ocg_displayOrder info < length (visited st') \<and>
           visited st' ! ocg_displayOrder info = (n, ocg_depth info, ocg_parentXref info) \<and>
           (\<forall>j. ocg_displayOrder info < j \<and> j < length (visited st') \<longrightarrow>
                fst (visited st' ! j) \<noteq> n))"
    proof (intro allI impI)
      fix n info
      assume m: "map_of (layer_map st') n = Some info"
      show "ocg_number info = n \<and>
        (n \<notin> fst ` set (visited st') \<longrightarrow>
           ocg_depth info = 0 \<and> ocg_parentXref info = 0 \<and> ocg_displayOrder info = 0) \<and>
        (n \<in> fst ` set (visited st') \<longrightarrow>
           ocg_displayOrder info < length (visited st') \<and>
           visited st' ! ocg_displayOrder info = (n, ocg_depth info, ocg_parentXref info) \<and>
           (\<forall>j. ocg_displayOrder info < j \<and> j < length (visited st') \<longrightarrow>
                fst (visited st' ! j) \<noteq> n))"
      proof (cases "n = num")
        case True
        then have "info = ?info" using m by (simp add: st' update_conv')
        then show ?thesis using True num0 cnt by (simp add: st' nth_append)
      next
        case False
        then have old: "map_of (layer_map st) n = Some info" using m by (simp add: st' update_conv')
        from t old have k: "ocg_number info = n"
          and unv: "n \<notin> fst ` set ?v \<Longrightarrow> ocg_depth info = 0 \<and> ocg_parentXref info = 0 \<and> ocg_displayOrder info = 0"
          and vis: "n \<in> fst ` set ?v \<Longrightarrow> ocg_displayOrder info < length ?v \<and>
             ?v ! ocg_displayOrder info = (n, ocg_depth info, ocg_parentXref info) \<and>
             (\<forall>j. ocg_displayOrder info < j \<and> j < length ?v \<longrightarrow> fst (?v ! j) \<noteq> n)"
          unfolding tracked_def by blast+
        have mem: "n \<in> fst ` set (visited st') \<longleftrightarrow> n \<in> fst ` set ?v"
          using False by (auto simp: st')
        show ?thesis
        proof (cases "n \<in> fst ` set ?v")
          case True
          from vis [OF True] have a1: "ocg_displayOrder info < length ?v"
            and a2: "?v ! ocg_displayOrder info = (n, ocg_depth info, ocg_parentXref info)"
            and a3: "\<And>j. ocg_displayOrder info < j \<Longrightarrow> j < length ?v \<Longrightarrow> fst (?v ! j) \<noteq> n"
            by blast+
          have "\<forall>j. ocg_displayOrder info < j \<and> j < length (visited st') \<longrightarrow> fst (visited st' ! j) \<noteq> n"
          proof (intro allI impI)
            fix j assume "ocg_displayOrder info < j \<and> j < length (visited st')"
            then show "fst (visited st' ! j) \<noteq> n"
              using a3 [of j] False by (cases "j < length ?v") (auto simp: st' nth_append)
          qed
          then show ?thesis using k mem True a1 a2 by (simp add: st' nth_append)
        next
          case False
          then show ?thesis using k mem unv by simp
        qed
      qed
    qed
    ultimately show ?thesis unfolding tracked_def by blast
  qed
qed


lemma update_same_proj:
  "map_of al k = Some v \<Longrightarrow> g v' = g v \<Longrightarrow>
   map (\<lambda>p. (fst p, g (snd p))) (AList.update k v' al) = map (\<lambda>p. (fst p, g (snd p))) al"
proof (induction al)
  case Nil
  then show ?case by simp
next
  case (Cons a al)
  then show ?case by (cases a) (auto split: if_splits)
qed

lemma flat_assign:
  assumes "assign_order x d p st = (st', e)"
  shows "flat_view st' = flat_view st"
proof -
  have "map_of (layer_map st) num = Some info \<Longrightarrow>
        map (\<lambda>p. (fst p, flat (snd p)))
          (AList.update num (info\<lparr>ocg_depth := d, ocg_parentXref := p, ocg_displayOrder := k\<rparr>)
             (layer_map st)) =
        map (\<lambda>p. (fst p, flat (snd p))) (layer_map st)" for num info k
    by (rule update_same_proj) (simp_all add: flat_def)
  then show ?thesis
    using assms by (auto simp: assign_order_def flat_view_def split: option.splits)
qed

lemma init_entries:
  "(\<forall>n i. map_of m n = Some i \<longrightarrow> Q n i) \<Longrightarrow> (\<forall>l \<in> set layers. Q (ui_number l) (new_info l)) \<Longrightarrow>
   map_of (fold (\<lambda>layer m. AList.update (ui_number layer) (new_info layer) m) layers m) n = Some i \<Longrightarrow>
   Q n i"
proof (induction layers arbitrary: m)
  case Nil
  then show ?case by simp
next
  case (Cons l layers)
  show ?case
  proof (rule Cons.IH [of "AList.update (ui_number l) (new_info l) m"])
    show "\<forall>n i. map_of (AList.update (ui_number l) (new_info l) m) n = Some i \<longrightarrow> Q n i"
      using Cons.prems(1,2) by (auto simp: update_conv' split: if_splits)
    show "\<forall>l\<in>set layers. Q (ui_number l) (new_info l)" using Cons.prems(2) by simp
    show "map_of (fold (\<lambda>layer. AList.update (ui_number layer) (new_info layer)) layers
            (AList.update (ui_number l) (new_info l) m)) n = Some i"
      using Cons.prems(3) by simp
  qed
qed

lemma init_distinct:
  "distinct (map fst m) \<Longrightarrow>
   distinct (map fst (fold (\<lambda>layer m. AList.update (ui_number layer) (new_info layer) m) layers m))"
  by (induction layers arbitrary: m) (auto simp: distinct_update)

lemma tracked_init: "tracked (init_state layers)"
proof -
  have d: "distinct (map fst (init_layer_map layers))"
    unfolding init_layer_map_def by (rule init_distinct) simp
  have "\<And>n i. map_of (init_layer_map layers) n = Some i \<Longrightarrow>
      ocg_number i = n \<and> ocg_depth i = 0 \<and> ocg_parentXref i = 0 \<and> ocg_displayOrder i = 0"
    unfolding init_layer_map_def
    by (rule init_entries [where Q = "\<lambda>n i. ocg_number i = n \<and> ocg_depth i = 0 \<and> ocg_parentXref i = 0 \<and> ocg_displayOrder i = 0"])
       (auto simp: new_info_def)
  with d show ?thesis by (auto simp: tracked_def init_state_def)
qed

lemma resolve_names_keeps:
  "tracked st \<Longrightarrow> visited st = [] \<Longrightarrow> resolve_names eng n2n xs st = (st', e) \<Longrightarrow>
   tracked st' \<and> visited st' = [] \<and> flat_view st' = flat_view st"
proof (induction xs arbitrary: st)
  case Nil
  then show ?case by simp
next
  case (Cons x xs)
  show ?case
  proof (cases "xref_get_key eng x ''Name''")
    case (Inl err)
    with Cons.prems show ?thesis by simp
  next
    case (Inr tv)
    obtain t_name name_val where tv: "tv = (t_name, name_val)" by (cases tv)
    show ?thesis
    proof (cases "t_name \<noteq> ''null'' \<and> name_val \<noteq> []")
      case False
      with Cons.prems Inr tv Cons.IH [of st] show ?thesis by auto
    next
      case True
      show ?thesis
      proof (cases "n2n (unwrap CHR ''('' CHR '')'' (strip name_val))")
        case None
        with Cons.prems Inr tv True Cons.IH [of st] show ?thesis by auto
      next
        case (Some num)
        show ?thesis
        proof (cases "map_of (layer_map st) num")
          case None
          with Cons.prems Inr tv True Some show ?thesis by auto
        next
          case info: (Some info)
          let ?st1 = "st\<lparr>layer_map := AList.update num (info\<lparr>ocg_xref := x\<rparr>) (layer_map st),
                          xref_to_num := AList.update x num (xref_to_num st)\<rparr>"
          have r: "resolve_names eng n2n xs ?st1 = (st', e)"
            using Cons.prems(3) Inr tv True Some info by simp
          have t1: "tracked ?st1"
            using Cons.prems(1,2) info
            by (auto simp: tracked_def distinct_update update_conv' split: if_splits)
          have v1: "visited ?st1 = []" using Cons.prems(2) by simp
          have "map (\<lambda>p. (fst p, flat (snd p)))
                  (AList.update num (info\<lparr>ocg_xref := x\<rparr>) (layer_map st)) =
                map (\<lambda>p. (fst p, flat (snd p))) (layer_map st)"
            using info by (rule update_same_proj) (simp add: flat_def)
          then have f1: "flat_view ?st1 = flat_view st"
            by (simp add: flat_view_def)
          from Cons.IH [OF t1 v1 r] f1 show ?thesis by simp
        qed
      qed
    qed
  qed
qed

lemma resolve_step_keeps:
  "tracked st \<Longrightarrow> visited st = [] \<Longrightarrow> resolve_step pl eng ocgs st = (st', e) \<Longrightarrow>
   tracked st' \<and> visited st' = [] \<and> flat_view st' = flat_view st"
  by (auto simp: resolve_step_def split: option.splits if_splits sum.splits
           dest: resolve_names_keeps)

lemma parse_order_array_tracked:
  "tracked st \<Longrightarrow> tracked (fst (parse_order_array pl frames s d p st))"
  unfolding parse_order_array_def
  by (auto intro: parse_loop_invariant [where P = tracked] tracked_assign)

lemma parse_order_array_flat:
  "flat_view (fst (parse_order_array pl frames s d p st)) = flat_view st"
  unfolding parse_order_array_def
  using parse_loop_invariant [where P = "\<lambda>s'. flat_view s' = flat_view st"]
  by (auto simp: flat_assign)

lemma order_step_keeps:
  assumes "tracked st" "visited st = []"
  shows "tracked (fst (order_step pl order st)) \<and> flat_view (fst (order_step pl order st)) = flat_view st"
proof -
  have "tracked (st\<lparr>display_order := 0\<rparr>)" using assms by (simp add: tracked_def)
  moreover have "flat_view (st\<lparr>display_order := 0\<rparr>) = flat_view st" by (simp add: flat_view_def)
  ultimately show ?thesis
    using assms(1) parse_order_array_tracked parse_order_array_flat
    by (auto simp: order_step_def split: option.splits)
qed

lemma try_block_keeps:
  "tracked (fst (try_block pl eng (init_state layers))) \<and>
   flat_view (fst (try_block pl eng (init_state layers))) = flat_view (init_state layers)"
proof (cases "locate_read pl eng")
  case (Inl e)
  then show ?thesis by (simp add: try_block_def tracked_init)
next
  case (Inr oo)
  obtain ocgs order where oo: "oo = (ocgs, order)" by (cases oo)
  obtain st1 e1 where r: "resolve_step pl eng ocgs (init_state layers) = (st1, e1)"
    by (cases "resolve_step pl eng ocgs (init_state layers)") auto
  have k: "tracked st1 \<and> visited st1 = [] \<and> flat_view st1 = flat_view (init_state layers)"
    by (rule resolve_step_keeps [OF tracked_init _ r]) (simp add: init_state_def)
  show ?thesis
  proof (cases e1)
    case None
    then show ?thesis using Inr oo r k order_step_keeps [of st1 pl order]
      by (simp add: try_block_def)
  next
    case (Some e)
    then show ?thesis using Inr oo r k by (simp add: try_block_def)
  qed
qed


lemma digit_val_digit_char: "d < 10 \<Longrightarrow> digit_val (digit_char d) = d"
  by (simp add: digit_val_def digit_char_def)



lemma int_of_digits_snoc: "int_of_digits (ds @ [c]) = 10 * int_of_digits ds + digit_val c"
  by (simp add: int_of_digits_def)

lemma int_of_digits_str_nat: "int_of_digits (str_nat n) = n"
proof (induction n rule: str_nat.induct)
  case (1 n)
  show ?case
  proof (cases "n < 10")
    case True
    then show ?thesis
      by (subst str_nat.simps) (simp add: int_of_digits_def digit_val_digit_char)
  next
    case False
    with 1 have "int_of_digits (str_nat (n div 10)) = n div 10" by simp
    with False show ?thesis
      by (subst str_nat.simps) (simp add: int_of_digits_snoc digit_val_digit_char)
  qed
qed

lemma re_digit_not_space: "re_digit c \<Longrightarrow> \<not> isspace c"
  by (auto simp: re_digit_def isspace_def Let_def)













lemma read_final_tracked: "tracked (read_final pl eng layers)"
  using try_block_keeps [of pl eng layers] by (simp add: read_final_def)

lemma read_final_flat: "flat_view (read_final pl eng layers) = flat_view (init_state layers)"
  using try_block_keeps [of pl eng layers] by (simp add: read_final_def)

lemma tracked_entry:
  assumes "tracked st" and "info \<in> set (map snd (layer_map st))"
  shows "map_of (layer_map st) (ocg_number info) = Some info"
proof -
  from assms(2) obtain num where m: "(num, info) \<in> set (layer_map st)" by auto
  have d: "distinct (map fst (layer_map st))" using assms(1) by (simp add: tracked_def)
  from d m have "map_of (layer_map st) num = Some info" by simp
  moreover from this assms(1) have "ocg_number info = num" by (simp add: tracked_def)
  ultimately show ?thesis by simp
qed

lemma tracked_unvisited:
  assumes "tracked st" and "info \<in> set (map snd (layer_map st))"
    and "ocg_number info \<notin> fst ` set (visited st)"
  shows "ocg_displayOrder info = 0 \<and> ocg_depth info = 0 \<and> ocg_parentXref info = 0"
  using tracked_entry [OF assms(1,2)] assms(1,3) unfolding tracked_def by blast

lemma tracked_visited:
  assumes "tracked st" and "info \<in> set (map snd (layer_map st))"
    and "ocg_number info \<in> fst ` set (visited st)"
  shows "ocg_displayOrder info < length (visited st) \<and>
         visited st ! ocg_displayOrder info = (ocg_number info, ocg_depth info, ocg_parentXref info) \<and>
         (\<forall>j. ocg_displayOrder info < j \<and> j < length (visited st) \<longrightarrow>
              fst (visited st ! j) \<noteq> ocg_number info)"
  using tracked_entry [OF assms(1,2)] assms(1,3) unfolding tracked_def by blast







text \<open>
  C8.  Whatever the \<^verbatim>\<open>try\<close> block does, and whether or not it ends in an exception (of the
  engine, of \<^verbatim>\<open>int\<close>, or of the recursion limit), the script returns a list: it holds the
  number, name, on and locked values of every layer of \<^verbatim>\<open>layer_map\<close>; a group the parser did
  not assign has depth, parent and display order 0; and every assignment the parser made
  before it stopped, unless a later one to the same group replaced it, is in the list with
  its depth, its parent and its position as display order.
\<close>

theorem getLayerConfig_survives_failure:
  assumes "layer_ui_configs eng = Inr layers"
  shows "\<exists>out. getLayerConfig_script pl eng = Inr out
     \<and> mset (map flat out) = mset (map flat (map snd (init_layer_map layers)))
     \<and> (\<forall>info \<in> set out.
           ocg_number info \<notin> fst ` set (visited (read_final pl eng layers)) \<longrightarrow>
           ocg_depth info = 0 \<and> ocg_parentXref info = 0 \<and> ocg_displayOrder info = 0)
     \<and> (\<forall>k num dep par.
           k < length (visited (read_final pl eng layers))
           \<and> visited (read_final pl eng layers) ! k = (num, dep, par)
           \<and> (\<forall>j. k < j \<and> j < length (visited (read_final pl eng layers))
                  \<longrightarrow> fst (visited (read_final pl eng layers) ! j) \<noteq> num)
           \<longrightarrow> (\<exists>info \<in> set out. ocg_number info = num \<and> ocg_depth info = dep
                  \<and> ocg_parentXref info = par \<and> ocg_displayOrder info = k))"
proof -
  let ?fin = "read_final pl eng layers"
  let ?out = "sort_key ocg_displayOrder (map snd (layer_map ?fin))"
  have t: "tracked ?fin" by (rule read_final_tracked)
  have mem: "info \<in> set (map snd (layer_map ?fin))" if "info \<in> set ?out" for info
    using that by simp
  have 1: "getLayerConfig_script pl eng = Inr ?out"
    using assms by (simp add: getLayerConfig_script_def)
  have "map snd (flat_view ?fin) = map snd (flat_view (init_state layers))"
    by (simp only: read_final_flat)
  then have "map flat (map snd (layer_map ?fin)) = map flat (map snd (init_layer_map layers))"
    by (simp add: flat_view_def init_state_def comp_def)
  then have same: "map flat (map snd (layer_map ?fin)) = map flat (map snd (init_layer_map layers))" .
  have "mset (map flat ?out) = mset (map flat (map snd (layer_map ?fin)))"
    by (simp only: mset_map mset_sort)
  then have 2: "mset (map flat ?out) = mset (map flat (map snd (init_layer_map layers)))"
    by (simp only: same)
  have 3: "\<forall>info \<in> set ?out.
           ocg_number info \<notin> fst ` set (visited ?fin) \<longrightarrow>
           ocg_depth info = 0 \<and> ocg_parentXref info = 0 \<and> ocg_displayOrder info = 0"
    using tracked_unvisited [OF t mem] by blast
  have 4: "\<forall>k num dep par.
           k < length (visited ?fin) \<and> visited ?fin ! k = (num, dep, par)
           \<and> (\<forall>j. k < j \<and> j < length (visited ?fin) \<longrightarrow> fst (visited ?fin ! j) \<noteq> num)
           \<longrightarrow> (\<exists>info \<in> set ?out. ocg_number info = num \<and> ocg_depth info = dep
                  \<and> ocg_parentXref info = par \<and> ocg_displayOrder info = k)"
  proof (intro allI impI)
    fix k num dep par
    assume a: "k < length (visited ?fin) \<and> visited ?fin ! k = (num, dep, par)
           \<and> (\<forall>j. k < j \<and> j < length (visited ?fin) \<longrightarrow> fst (visited ?fin ! j) \<noteq> num)"
    then have "(num, dep, par) \<in> set (visited ?fin)" by (metis nth_mem)
    then have v: "num \<in> fst ` set (visited ?fin)" by force
    with t have "num \<in> fst ` set (layer_map ?fin)" unfolding tracked_def by blast
    then obtain info where m: "(num, info) \<in> set (layer_map ?fin)" by auto
    then have i: "info \<in> set (map snd (layer_map ?fin))" by force
    have d: "distinct (map fst (layer_map ?fin))" using t by (simp add: tracked_def)
    from d m have "map_of (layer_map ?fin) num = Some info" by simp
    with t have n: "ocg_number info = num" by (simp add: tracked_def)
    from tracked_visited [OF t i] v n
    have lt: "ocg_displayOrder info < length (visited ?fin)"
      and at: "visited ?fin ! ocg_displayOrder info = (num, ocg_depth info, ocg_parentXref info)"
      and later: "\<And>j. ocg_displayOrder info < j \<Longrightarrow> j < length (visited ?fin)
                    \<Longrightarrow> fst (visited ?fin ! j) \<noteq> num"
      by auto
    have "ocg_displayOrder info = k"
    proof (rule ccontr)
      assume ne: "ocg_displayOrder info \<noteq> k"
      show False
      proof (cases "ocg_displayOrder info < k")
        case True
        from later [OF True] a show False by simp
      next
        case False
        with ne have "k < ocg_displayOrder info" by simp
        with a lt have "fst (visited ?fin ! ocg_displayOrder info) \<noteq> num" by blast
        with at show False by simp
      qed
    qed
    with at a have "ocg_depth info = dep \<and> ocg_parentXref info = par \<and> ocg_displayOrder info = k"
      by simp
    moreover have "info \<in> set ?out" using i by simp
    ultimately show "\<exists>info \<in> set ?out. ocg_number info = num \<and> ocg_depth info = dep
                  \<and> ocg_parentXref info = par \<and> ocg_displayOrder info = k"
      using n by blast
  qed
  from 1 2 3 4 show ?thesis by blast
qed

lemma nested_doc_stops:
  "try_block (limits\<lparr>recursion_limit := 2\<rparr>) nested_doc (init_state abc_layers) =
     (\<lparr>layer_map =
         [(0, \<lparr>ocg_number = 0, ocg_text = ''A'', ocg_on = True, ocg_locked = False,
               ocg_depth = 0, ocg_xref = 5, ocg_parentXref = 0, ocg_displayOrder = 0\<rparr>),
          (1, \<lparr>ocg_number = 1, ocg_text = ''B'', ocg_on = True, ocg_locked = False,
               ocg_depth = 1, ocg_xref = 6, ocg_parentXref = 5, ocg_displayOrder = 1\<rparr>),
          (2, \<lparr>ocg_number = 2, ocg_text = ''C'', ocg_on = True, ocg_locked = False,
               ocg_depth = 0, ocg_xref = 7, ocg_parentXref = 0, ocg_displayOrder = 0\<rparr>)],
       xref_to_num = [(5, 0), (6, 1), (7, 2)], display_order = 2,
       visited = [(0, 0, 0), (1, 1, 5)]\<rparr>,
      Some RecursionError)"
  by code_simp

lemma nested_doc_result:
  "getLayerConfig_script (limits\<lparr>recursion_limit := 2\<rparr>) nested_doc =
     Inr [\<lparr>ocg_number = 0, ocg_text = ''A'', ocg_on = True, ocg_locked = False,
            ocg_depth = 0, ocg_xref = 5, ocg_parentXref = 0, ocg_displayOrder = 0\<rparr>,
          \<lparr>ocg_number = 2, ocg_text = ''C'', ocg_on = True, ocg_locked = False,
            ocg_depth = 0, ocg_xref = 7, ocg_parentXref = 0, ocg_displayOrder = 0\<rparr>,
          \<lparr>ocg_number = 1, ocg_text = ''B'', ocg_on = True, ocg_locked = False,
            ocg_depth = 1, ocg_xref = 6, ocg_parentXref = 5, ocg_displayOrder = 1\<rparr>]"
  by code_simp

theorem getLayerConfig_survives_failure_witness:
  "layer_ui_configs nested_doc = Inr abc_layers
   \<and> snd (try_block (limits\<lparr>recursion_limit := 2\<rparr>) nested_doc (init_state abc_layers))
       = Some RecursionError
   \<and> visited (read_final (limits\<lparr>recursion_limit := 2\<rparr>) nested_doc abc_layers)
       = [(0, 0, 0), (1, 1, 5)]
   \<and> (\<exists>out. getLayerConfig_script (limits\<lparr>recursion_limit := 2\<rparr>) nested_doc = Inr out
         \<and> mset (map flat out) = {#(0, ''A'', True, False), (1, ''B'', True, False),
                                   (2, ''C'', True, False)#}
         \<and> out ! 1 = \<lparr>ocg_number = 2, ocg_text = ''C'', ocg_on = True, ocg_locked = False,
                       ocg_depth = 0, ocg_xref = 7, ocg_parentXref = 0, ocg_displayOrder = 0\<rparr>
         \<and> out ! 2 = \<lparr>ocg_number = 1, ocg_text = ''B'', ocg_on = True, ocg_locked = False,
                       ocg_depth = 1, ocg_xref = 6, ocg_parentXref = 5, ocg_displayOrder = 1\<rparr>)
   \<and> snd (try_block limits broken_doc (init_state abc_layers)) = Some EngineError
   \<and> map flat (projr (getLayerConfig_script limits broken_doc))
       = [(0, ''A'', True, False), (1, ''B'', True, False), (2, ''C'', True, False)]"
proof -
  have h: "layer_ui_configs nested_doc = Inr abc_layers"
    by (simp add: nested_doc_def doc_with_def)
  have v: "visited (read_final (limits\<lparr>recursion_limit := 2\<rparr>) nested_doc abc_layers)
       = [(0, 0, 0), (1, 1, 5)]"
    by (simp add: read_final_def nested_doc_stops)
  have i: "map flat (map snd (init_layer_map abc_layers))
             = [(0, ''A'', True, False), (1, ''B'', True, False), (2, ''C'', True, False)]"
    by code_simp
  from getLayerConfig_survives_failure [OF h, of "limits\<lparr>recursion_limit := 2\<rparr>"]
  obtain out where o: "getLayerConfig_script (limits\<lparr>recursion_limit := 2\<rparr>) nested_doc = Inr out"
    and f: "mset (map flat out) = mset (map flat (map snd (init_layer_map abc_layers)))"
    by blast
  from f [unfolded i] have f': "mset (map flat out) = {#(0, ''A'', True, False),
                                   (1, ''B'', True, False), (2, ''C'', True, False)#}"
    by simp
  from o nested_doc_result have out: "out =
         [\<lparr>ocg_number = 0, ocg_text = ''A'', ocg_on = True, ocg_locked = False,
            ocg_depth = 0, ocg_xref = 5, ocg_parentXref = 0, ocg_displayOrder = 0\<rparr>,
          \<lparr>ocg_number = 2, ocg_text = ''C'', ocg_on = True, ocg_locked = False,
            ocg_depth = 0, ocg_xref = 7, ocg_parentXref = 0, ocg_displayOrder = 0\<rparr>,
          \<lparr>ocg_number = 1, ocg_text = ''B'', ocg_on = True, ocg_locked = False,
            ocg_depth = 1, ocg_xref = 6, ocg_parentXref = 5, ocg_displayOrder = 1\<rparr>]"
    by simp
  have x: "\<exists>out. getLayerConfig_script (limits\<lparr>recursion_limit := 2\<rparr>) nested_doc = Inr out
         \<and> mset (map flat out) = {#(0, ''A'', True, False), (1, ''B'', True, False),
                                   (2, ''C'', True, False)#}
         \<and> out ! 1 = \<lparr>ocg_number = 2, ocg_text = ''C'', ocg_on = True, ocg_locked = False,
                       ocg_depth = 0, ocg_xref = 7, ocg_parentXref = 0, ocg_displayOrder = 0\<rparr>
         \<and> out ! 2 = \<lparr>ocg_number = 1, ocg_text = ''B'', ocg_on = True, ocg_locked = False,
                       ocg_depth = 1, ocg_xref = 6, ocg_parentXref = 5, ocg_displayOrder = 1\<rparr>"
    using o f' by (intro exI [of _ out]) (simp add: out)
  have b1: "snd (try_block limits broken_doc (init_state abc_layers)) = Some EngineError"
    by code_simp
  have b2: "map flat (projr (getLayerConfig_script limits broken_doc))
       = [(0, ''A'', True, False), (1, ''B'', True, False), (2, ''C'', True, False)]"
    by code_simp
  have r: "snd (try_block (limits\<lparr>recursion_limit := 2\<rparr>) nested_doc (init_state abc_layers))
       = Some RecursionError"
    by (simp add: nested_doc_stops)
  from h r v x b1 b2 show ?thesis by (simp only: simp_thms)
qed

section \<open>Properties of the document handle\<close>

lemma each_cong_open:
  "(\<And>x w. f x w = g x w) \<Longrightarrow> each f xs w = each g xs w"
  by (induction xs arbitrary: w) (auto split: prod.splits sum.splits)

lemma close_closes: "doc_closed (fst (close itp d w))"
  by (auto simp: close_def split: prod.splits sum.splits)

text \<open>
  C4 (as amended).  On an open handle \<^verbatim>\<open>deletePages(indices)\<close> gives the same world and the
  same outcome as calling \<^verbatim>\<open>deletePage\<close> once for every element of the list, largest index
  first.  The order is descending; it is strictly descending exactly when no index is listed
  twice.
\<close>

theorem deletePages_descending:
  assumes "\<not> doc_closed d"
  shows "(snd (fst (deletePages itp d indices (st, w))), snd (deletePages itp d indices (st, w)))
           = each (deletePage itp d) (rev (sort (st ! indices))) w
       \<and> mset (rev (sort (st ! indices))) = mset (st ! indices)
       \<and> sorted_wrt (\<lambda>a b. a \<ge> b) (rev (sort (st ! indices)))
       \<and> (sorted_wrt (\<lambda>a b. a > b) (rev (sort (st ! indices))) \<longleftrightarrow> distinct (st ! indices))"
proof -
  let ?xs = "rev (sort (st ! indices))"
  have same: "each (\<lambda>i. runPython itp (DeletePage (docVar d) i)) ?xs w = each (deletePage itp d) ?xs w"
    by (rule each_cong_open) (simp add: deletePage_def ensureOpen_def assms)
  have "(snd (fst (deletePages itp d indices (st, w))), snd (deletePages itp d indices (st, w)))
          = each (\<lambda>i. runPython itp (DeletePage (docVar d) i)) ?xs w"
    using assms
    by (simp add: deletePages_def ensureOpen_def spread_def sort_desc_in_place_def
             nth_append split: prod.splits)
  with same have eq: "(snd (fst (deletePages itp d indices (st, w))), snd (deletePages itp d indices (st, w)))
          = each (deletePage itp d) ?xs w"
    by simp
  have desc: "sorted_wrt (\<lambda>a b. a \<ge> b) ?xs"
    using sorted_sort [of "st ! indices"] by (simp add: sorted_wrt_rev)
  have "sorted_wrt (\<lambda>a b. a > b) ?xs \<longleftrightarrow> sorted_wrt (\<lambda>a b. a < b) (sort (st ! indices))"
    by (simp add: sorted_wrt_rev)
  also have "\<dots> \<longleftrightarrow> distinct (st ! indices)"
    by (simp add: strict_sorted_iff)
  finally have strict: "sorted_wrt (\<lambda>a b. a > b) ?xs \<longleftrightarrow> distinct (st ! indices)" .
  from eq desc strict show ?thesis by simp
qed

theorem deletePages_descending_witness:
  "\<not> doc_closed open_doc
   \<and> rev (sort [5, 2, 7 :: int]) = [7, 5, 2]
   \<and> (snd (fst (deletePages page_engine open_doc 0 ([[5, 2, 7]], pages_world 10))),
       snd (deletePages page_engine open_doc 0 ([[5, 2, 7]], pages_world 10)))
      = each (deletePage page_engine open_doc) [7, 5, 2] (pages_world 10)
   \<and> calls (fst (each (deletePage page_engine open_doc) [7, 5, 2] (pages_world 10)))
      = [DeletePage ''_doc1'' 7, DeletePage ''_doc1'' 5, DeletePage ''_doc1'' 2]"
proof -
  have o: "\<not> doc_closed open_doc" by (simp add: open_doc_def)
  have s: "rev (sort [5, 2, 7 :: int]) = [7, 5, 2]" by simp
  have c: "calls (fst (each (deletePage page_engine open_doc) [7, 5, 2] (pages_world 10)))
      = [DeletePage ''_doc1'' 7, DeletePage ''_doc1'' 5, DeletePage ''_doc1'' 2]"
    by (simp add: deletePage_def ensureOpen_def runPython_def page_engine_def open_doc_def
             pages_world_def)
  from deletePages_descending [OF o, of page_engine 0 "[[5, 2, 7]]" "pages_world 10"]
  have "(snd (fst (deletePages page_engine open_doc 0 ([[5, 2, 7]], pages_world 10))),
       snd (deletePages page_engine open_doc 0 ([[5, 2, 7]], pages_world 10)))
      = each (deletePage page_engine open_doc) [7, 5, 2] (pages_world 10)"
    by (simp only: nth_Cons_0 s simp_thms)
  with o s c show ?thesis by (simp only: simp_thms)
qed

text \<open>
  C4 as stated fails for a list that names an index twice: \<^verbatim>\<open>deletePages([2, 2])\<close> deletes
  page 2 twice, in an order that is not strictly descending, and leaves a ten-page document
  with eight pages where one deletion of page 2 leaves nine.
\<close>

theorem deletePages_descending_counterexample:
  "calls (snd (fst (deletePages page_engine open_doc 0 ([[2, 2]], pages_world 10))))
     = [DeletePage ''_doc1'' 2, DeletePage ''_doc1'' 2]
   \<and> \<not> sorted_wrt (\<lambda>a b. a > b) [2, 2 :: int]
   \<and> py (snd (fst (deletePages page_engine open_doc 0 ([[2, 2]], pages_world 10)))) = 8
   \<and> py (fst (deletePage page_engine open_doc 2 (pages_world 10))) = 9"
  by (simp add: deletePages_def deletePage_def ensureOpen_def runPython_def page_engine_def
           open_doc_def pages_world_def spread_def sort_desc_in_place_def)

text \<open>
  C5.  Once \<^verbatim>\<open>close()\<close> has returned, every accessor and mutator of the handle fails with
  "Document has been closed" and leaves the world as it was: the interpreter's state and the
  list of calls made are unchanged, so no call reached the interpreter.  (For the generator
  \<^verbatim>\<open>pages()\<close> this is its first step.)  A second \<^verbatim>\<open>close()\<close> returns normally and changes
  neither the handle nor the world.
\<close>

theorem closed_handle_rejects:
  assumes "close itp d w0 = (d', w1)"
  shows "call_op itp d' opn w = (w, Inl DocumentClosed)
       \<and> searchText itp d' q w = Some (w, Inl DocumentClosed)
       \<and> close itp d' w = (d', w)"
proof -
  have c: "doc_closed d'" using close_closes [of itp d w0] assms by simp
  have "call_op itp d' opn w = (w, Inl DocumentClosed)"
    using c
    by (cases opn)
       (simp_all add: ensureOpen_def as_val_def pageCount_def isPdf_def isEncrypted_def
          needsPass_def metadata_def setMetadata_def getPage_def pages_def deletePage_def
          deletePages_def insertBlankPage_def movePage_def copyPage_def selectPages_def
          insertPdf_def convertToPdf_def getToc_def setToc_def isFormPdf_def getFormFields_def
          setFormField_def authenticate_def save_def saveAsBlob_def getLayerConfig_def
          addOCG_def addOCGWithParent_def setLayerVisibility_def setOC_def getOC_def
          deleteOCG_def)
  moreover have "searchText itp d' q w = Some (w, Inl DocumentClosed)"
    using c by (simp add: searchText_def)
  moreover have "close itp d' w = (d', w)"
    using c by (simp add: close_def)
  ultimately show ?thesis by simp
qed

lemma open_doc_closed:
  "close page_engine open_doc (pages_world 3) =
     (open_doc\<lparr>doc_closed := True\<rparr>,
      \<lparr>py = 3, calls = [DocClose ''_doc1'', FsUnlink ''/input_1'']\<rparr>)"
  by (simp add: close_def runPython_def page_engine_def open_doc_def pages_world_def)

theorem closed_handle_rejects_witness:
  "call_op page_engine (open_doc\<lparr>doc_closed := True\<rparr>) (OpGetPage 0)
      \<lparr>py = 3, calls = [DocClose ''_doc1'', FsUnlink ''/input_1'']\<rparr>
     = (\<lparr>py = 3, calls = [DocClose ''_doc1'', FsUnlink ''/input_1'']\<rparr>, Inl DocumentClosed)
   \<and> close page_engine (open_doc\<lparr>doc_closed := True\<rparr>)
        \<lparr>py = 3, calls = [DocClose ''_doc1'', FsUnlink ''/input_1'']\<rparr>
     = (open_doc\<lparr>doc_closed := True\<rparr>,
        \<lparr>py = 3, calls = [DocClose ''_doc1'', FsUnlink ''/input_1'']\<rparr>)"
  using closed_handle_rejects [OF open_doc_closed, of "OpGetPage 0"
          "\<lparr>py = 3, calls = [DocClose ''_doc1'', FsUnlink ''/input_1'']\<rparr>" "''x''"]
  by (simp only: simp_thms)

lemma pageCount_stable:
  assumes "\<not> doc_closed d" and "page_count itp (docVar d) (py w) = (py w, Inr n)"
  shows "pageCount itp d w = (\<lparr>py = py w, calls = calls w @ [PageCount (docVar d)]\<rparr>, Inr n)"
  using assms by (simp add: pageCount_def ensureOpen_def)

text \<open>
  C6 (as amended).  On an open handle whose interpreter reports \<open>n\<close> pages, \<^verbatim>\<open>getPage(i)\<close>
  reads the page count on every call and fails with the bounds error exactly when \<open>i\<close> is
  negative or at least \<open>n\<close>.  \<^verbatim>\<open>deletePage\<close>, \<^verbatim>\<open>movePage\<close> and \<^verbatim>\<open>copyPage\<close> pass their
  indices to the interpreter as they are, whatever their values, and \<^verbatim>\<open>insertBlankPage\<close> runs
  \<^verbatim>\<open>insert_page\<close> first and checks the index only afterwards, through \<^verbatim>\<open>getPage\<close>.
\<close>

theorem page_index_validation:
  assumes "\<not> doc_closed d" and "page_count itp (docVar d) (py w) = (py w, Inr n)"
  shows "snd (getPage itp d i w) =
           (if i < 0 \<or> n \<le> i then Inl (PageIndexOutOfRange i (n - 1)) else Inr (VPage (docVar d) i))
       \<and> PageCount (docVar d) \<in> set (calls (fst (getPage itp d i w)))
       \<and> deletePage itp d i w = runPython itp (DeletePage (docVar d) i) w
       \<and> movePage itp d i j w = runPython itp (MovePage (docVar d) i j) w
       \<and> copyPage itp d i j w = runPython itp (CopyPage (docVar d) i j) w
       \<and> insertBlankPage itp d i None None w =
           (case runPython itp (InsertPage (docVar d) i 595 842) w of
              (w1, Inl e) \<Rightarrow> (w1, Inl e)
            | (w1, Inr v) \<Rightarrow> getPage itp d i w1)"
proof -
  let ?w1 = "\<lparr>py = py w, calls = calls w @ [PageCount (docVar d)]\<rparr>"
  have p0: "pageCount itp d w = (?w1, Inr n)"
    by (rule pageCount_stable [OF assms])
  have p1: "pageCount itp d ?w1 =
              (\<lparr>py = py w, calls = calls w @ [PageCount (docVar d)] @ [PageCount (docVar d)]\<rparr>, Inr n)"
    using pageCount_stable [of d itp ?w1 n] assms by simp
  have g: "getPage itp d i w =
      (if i < 0 then (?w1, Inl (PageIndexOutOfRange i (n - 1)))
       else if n \<le> i
         then (\<lparr>py = py w, calls = calls w @ [PageCount (docVar d)] @ [PageCount (docVar d)]\<rparr>,
               Inl (PageIndexOutOfRange i (n - 1)))
         else (?w1, Inr (VPage (docVar d) i)))"
    using assms(1) p0 p1 by (simp add: getPage_def ensureOpen_def out_of_range_def)
  have "snd (getPage itp d i w) =
           (if i < 0 \<or> n \<le> i then Inl (PageIndexOutOfRange i (n - 1)) else Inr (VPage (docVar d) i))"
    by (simp add: g)
  moreover have "PageCount (docVar d) \<in> set (calls (fst (getPage itp d i w)))"
    by (simp add: g)
  ultimately show ?thesis
    using assms(1)
    by (simp add: deletePage_def movePage_def copyPage_def insertBlankPage_def ensureOpen_def)
qed

theorem page_index_validation_witness:
  "snd (getPage page_engine open_doc 7 (pages_world 3)) = Inl (PageIndexOutOfRange 7 2)
   \<and> snd (getPage page_engine open_doc 2 (pages_world 3)) = Inr (VPage ''_doc1'' 2)
   \<and> deletePage page_engine open_doc 7 (pages_world 3)
       = runPython page_engine (DeletePage ''_doc1'' 7) (pages_world 3)"
proof -
  have o: "\<not> doc_closed open_doc" by (simp add: open_doc_def)
  have p: "page_count page_engine (docVar open_doc) (py (pages_world 3)) = (py (pages_world 3), Inr 3)"
    by (simp add: page_engine_def pages_world_def)
  have dv: "docVar open_doc = ''_doc1''" by (simp add: open_doc_def)
  from page_index_validation [OF o p, of 7 0] page_index_validation [OF o p, of 2 0]
  show ?thesis by (simp add: dv)
qed

text \<open>
  C6 as stated fails for every operation but \<^verbatim>\<open>getPage\<close>.  On a three-page document
  \<^verbatim>\<open>deletePage(7)\<close> reads no page count; the call \<^verbatim>\<open>delete_page(7)\<close> is the only one made, and what
  the caller sees is the error that the interpreter raised, not a bounds error of this layer.
\<close>

theorem page_index_validation_counterexample:
  "deletePage page_engine open_doc 7 (pages_world 3)
     = (\<lparr>py = 3, calls = [DeletePage ''_doc1'' 7]\<rparr>, Inl (PythonError ValueError))
   \<and> snd (movePage page_engine open_doc 7 9 (pages_world 3)) = Inr VNone
   \<and> calls (fst (movePage page_engine open_doc 7 9 (pages_world 3))) = [MovePage ''_doc1'' 7 9]"
  by (simp add: deletePage_def movePage_def ensureOpen_def runPython_def page_engine_def
           open_doc_def pages_world_def)

text \<open>
  C9.  \<^verbatim>\<open>deletePages\<close> leaves the array it was given, and every other array that existed
  before the call, as it was: the sort works on the copy that \<^verbatim>\<open>[...indices]\<close> allocated.
\<close>

theorem deletePages_keeps_argument:
  assumes "indices < length st"
  shows "fst (fst (deletePages itp d indices (st, w))) ! indices = st ! indices
       \<and> take (length st) (fst (fst (deletePages itp d indices (st, w)))) = st"
  using assms
  by (auto simp: deletePages_def ensureOpen_def spread_def sort_desc_in_place_def nth_append
           split: prod.splits)

theorem deletePages_keeps_argument_witness:
  "(0::nat) < length [[5, 2, 7 :: int]]
   \<and> fst (fst (deletePages page_engine open_doc 0 ([[5, 2, 7]], pages_world 10))) ! 0 = [5, 2, 7]
   \<and> fst (fst (deletePages page_engine open_doc 0 ([[5, 2, 7]], pages_world 10)))
       = [[5, 2, 7], [7, 5, 2]]"
proof -
  have l: "(0::nat) < length [[5, 2, 7 :: int]]" by simp
  have s: "fst (fst (deletePages page_engine open_doc 0 ([[5, 2, 7]], pages_world 10)))
       = [[5, 2, 7], [7, 5, 2]]"
    by (simp add: deletePages_def ensureOpen_def spread_def sort_desc_in_place_def open_doc_def
             split: prod.splits)
  from deletePages_keeps_argument [OF l, of page_engine open_doc "pages_world 10"] l s
  show ?thesis by (simp only: nth_Cons_0 simp_thms)
qed

section \<open>Properties of the facade\<close>

lemma runPython_calls: "calls (fst (runPython itp c w)) = calls w @ [c]"
  by (simp add: runPython_def split: prod.splits sum.splits)








subsection \<open>\<^verbatim>\<open>compressPdf\<close>\<close>

lemma round_even_err: "\<bar>of_int (round_even m) - m\<bar> \<le> 1 / 2"
proof -
  have "of_int \<lfloor>m\<rfloor> \<le> m" "m < of_int \<lfloor>m\<rfloor> + 1" by linarith+
  then show ?thesis
    unfolding round_even_def Let_def by (auto simp: abs_le_iff) 
qed

lemma js_round_err: "\<bar>of_int (js_round x) - x\<bar> \<le> 1 / 2"
proof -
  have "of_int \<lfloor>x + 1 / 2\<rfloor> \<le> x + 1 / 2" "x + 1 / 2 < of_int \<lfloor>x + 1 / 2\<rfloor> + 1" by linarith+
  then show ?thesis unfolding js_round_def by (intro abs_leI) linarith+
qed

lemma expo_bounds:
  assumes "x \<noteq> 0"
  shows "power_int 2 (expo x) \<le> \<bar>x\<bar> \<and> \<bar>x\<bar> < power_int 2 (expo x + 1)"
proof -
  obtain a b where q: "quotient_of \<bar>x\<bar> = (a, b)" by (cases "quotient_of \<bar>x\<bar>")
  have b: "0 < b" using quotient_of_denom_pos [OF q] .
  have x: "\<bar>x\<bar> = of_int a / of_int b" using quotient_of_div [OF q] .
  have "0 < \<bar>x\<bar>" using assms by simp
  with x b have a: "0 < a" by (simp add: zero_less_divide_iff)
  let ?la = "bitlen a" and ?lb = "bitlen b"
  let ?k = "?la - ?lb"
  have la: "1 \<le> ?la" and lb: "1 \<le> ?lb"
    using a b bitlen_eq_zero_iff [of a] bitlen_eq_zero_iff [of b] bitlen_nonneg [of a] bitlen_nonneg [of b]
    by linarith+
  from bitlen_bounds [OF a] have a1: "(2::rat) ^ nat (?la - 1) \<le> of_int a" and a2: "of_int a < (2::rat) ^ nat ?la"
    by (metis of_int_le_iff of_int_numeral of_int_power, metis of_int_less_iff of_int_numeral of_int_power)
  from bitlen_bounds [OF b] have b1: "(2::rat) ^ nat (?lb - 1) \<le> of_int b" and b2: "of_int b < (2::rat) ^ nat ?lb"
    by (metis of_int_le_iff of_int_numeral of_int_power, metis of_int_less_iff of_int_numeral of_int_power)
  have pa1: "(2::rat) ^ nat (?la - 1) = power_int 2 (?la - 1)" using la by (simp add: power_int_def)
  have pa2: "(2::rat) ^ nat ?la = power_int 2 ?la" using la by (simp add: power_int_def)
  have pb1: "(2::rat) ^ nat (?lb - 1) = power_int 2 (?lb - 1)" using lb by (simp add: power_int_def)
  have pb2: "(2::rat) ^ nat ?lb = power_int 2 ?lb" using lb by (simp add: power_int_def)
  have bpos: "(0::rat) < of_int b" using b by simp
  have up: "\<bar>x\<bar> < power_int 2 (?k + 1)"
  proof -
    have "\<bar>x\<bar> < power_int 2 ?la / of_int b"
      unfolding x using a2 bpos by (simp add: pa2 divide_strict_right_mono)
    also have "\<dots> \<le> power_int 2 ?la / power_int 2 (?lb - 1)"
      using b1 by (simp add: pb1 frac_le)
    also have "\<dots> = power_int 2 (?k + 1)"
      by (simp add: power_int_diff [symmetric] algebra_simps)
    finally show ?thesis .
  qed
  have low: "power_int 2 (?k - 1) < \<bar>x\<bar>"
  proof -
    have "power_int (2::rat) (?k - 1) = power_int 2 (?la - 1) / power_int 2 ?lb"
      by (simp add: power_int_diff [symmetric] algebra_simps)
    also have "\<dots> < power_int 2 (?la - 1) / of_int b"
      using b2 bpos by (simp add: pb2 [symmetric] divide_strict_left_mono)
    also have "\<dots> \<le> of_int a / of_int b"
      using a1 bpos by (simp add: pa1 [symmetric] divide_right_mono)
    finally show ?thesis by (simp add: x)
  qed
  show ?thesis
  proof (cases "power_int 2 ?k \<le> \<bar>x\<bar>")
    case True
    then have "expo x = ?k" by (simp add: expo_def q)
    with True up show ?thesis by simp
  next
    case False
    then have "expo x = ?k - 1" by (simp add: expo_def q)
    with False low show ?thesis by simp
  qed
qed


lemma fl_err: "\<bar>fl x - x\<bar> \<le> \<bar>x\<bar> / 2 ^ 53"
proof (cases "x = 0")
  case True
  then show ?thesis by (simp add: fl_def)
next
  case False
  let ?q = "power_int (2::rat) (expo x - 52)"
  have qpos: "0 < ?q" by simp
  have q: "?q = power_int 2 (expo x) / 2 ^ 52"
    by (simp add: power_int_diff)
  have "power_int 2 (expo x) \<le> \<bar>x\<bar>" using expo_bounds [OF False] by simp
  then have qle: "?q \<le> \<bar>x\<bar> / 2 ^ 52" unfolding q by (simp add: divide_right_mono)
  have "fl x - x = (of_int (round_even (x / ?q)) - x / ?q) * ?q"
    using False qpos by (simp add: fl_def Let_def algebra_simps)
  then have "\<bar>fl x - x\<bar> = \<bar>of_int (round_even (x / ?q)) - x / ?q\<bar> * ?q"
    using qpos by (simp add: abs_mult)
  also have "\<dots> \<le> (1 / 2) * ?q"
    using round_even_err [of "x / ?q"] qpos by (intro mult_right_mono) simp_all
  also have "\<dots> \<le> (1 / 2) * (\<bar>x\<bar> / 2 ^ 52)"
    using qle by (intro mult_left_mono) simp_all
  also have "\<dots> = \<bar>x\<bar> / 2 ^ 53" by simp
  finally show ?thesis .
qed

lemma fl_abs: "\<bar>fl x\<bar> \<le> \<bar>x\<bar> * (1 + 1 / 2 ^ 53)"
proof -
  have "\<bar>fl x\<bar> \<le> \<bar>x\<bar> + \<bar>fl x - x\<bar>" by linarith
  also have "\<dots> \<le> \<bar>x\<bar> + \<bar>x\<bar> / 2 ^ 53" using fl_err [of x] by linarith
  also have "\<dots> = \<bar>x\<bar> * (1 + 1 / 2 ^ 53)" by (simp add: algebra_simps)
  finally show ?thesis .
qed

lemma percent10_bound:
  "\<bar>rat_of_int (percent10 s n) - 1000 * (of_int s / of_int n)\<bar>
     \<le> 1 / 2 + 4000 * \<bar>rat_of_int s / of_int n\<bar> / 2 ^ 53"
proof -
  define u :: rat where "u = 1 / 2 ^ 53"
  define t :: rat where "t = of_int s / of_int n"
  define x1 where "x1 = fl t"
  define x2 where "x2 = fl (x1 * 100)"
  define x3 where "x3 = fl (x2 * 10)"
  have u: "0 \<le> u" "u \<le> 1 / 4" by (simp_all add: u_def)
  have e1: "\<bar>x1 - t\<bar> \<le> \<bar>t\<bar> * u" using fl_err [of t] by (simp add: x1_def u_def)
  have e2: "\<bar>x2 - x1 * 100\<bar> \<le> \<bar>x1\<bar> * 100 * u"
    using fl_err [of "x1 * 100"] by (simp add: x2_def u_def abs_mult)
  have e3: "\<bar>x3 - x2 * 10\<bar> \<le> \<bar>x2\<bar> * 10 * u"
    using fl_err [of "x2 * 10"] by (simp add: x3_def u_def abs_mult)
  have a1: "\<bar>x1\<bar> \<le> \<bar>t\<bar> * (1 + u)" using fl_abs [of t] by (simp add: x1_def u_def)
  have a2: "\<bar>x2\<bar> \<le> \<bar>x1\<bar> * 100 * (1 + u)"
    using fl_abs [of "x1 * 100"] by (simp add: x2_def u_def abs_mult)
  have a2': "\<bar>x2\<bar> \<le> \<bar>t\<bar> * 100 * ((1 + u) * (1 + u))"
  proof -
    have "\<bar>x1\<bar> * 100 * (1 + u) \<le> (\<bar>t\<bar> * (1 + u)) * 100 * (1 + u)"
      using a1 u by (intro mult_right_mono) simp_all
    with a2 show ?thesis by (simp add: algebra_simps)
  qed
  have "x3 - 1000 * t = (x3 - x2 * 10) + (10 * (x2 - x1 * 100) + 1000 * (x1 - t))"
    by (simp add: algebra_simps)
  then have "\<bar>x3 - 1000 * t\<bar>
               \<le> \<bar>x3 - x2 * 10\<bar> + (\<bar>10 * (x2 - x1 * 100)\<bar> + \<bar>1000 * (x1 - t)\<bar>)"
    using abs_triangle_ineq [of "x3 - x2 * 10" "10 * (x2 - x1 * 100) + 1000 * (x1 - t)"]
          abs_triangle_ineq [of "10 * (x2 - x1 * 100)" "1000 * (x1 - t)"]
    by linarith
  moreover have "\<bar>10 * (x2 - x1 * 100)\<bar> = 10 * \<bar>x2 - x1 * 100\<bar>"
    and "\<bar>1000 * (x1 - t)\<bar> = 1000 * \<bar>x1 - t\<bar>"
    by (simp_all only: abs_mult abs_numeral)
  ultimately have "\<bar>x3 - 1000 * t\<bar>
      \<le> \<bar>x3 - x2 * 10\<bar> + 10 * \<bar>x2 - x1 * 100\<bar> + 1000 * \<bar>x1 - t\<bar>"
    by linarith
  also have "\<dots> \<le> \<bar>x2\<bar> * 10 * u + 10 * (\<bar>x1\<bar> * 100 * u) + 1000 * (\<bar>t\<bar> * u)"
    using e1 e2 e3 by linarith
  also have "\<dots> \<le> (\<bar>t\<bar> * 100 * ((1 + u) * (1 + u))) * 10 * u
                    + 10 * ((\<bar>t\<bar> * (1 + u)) * 100 * u) + 1000 * (\<bar>t\<bar> * u)"
  proof -
    have "\<bar>x2\<bar> * 10 * u \<le> (\<bar>t\<bar> * 100 * ((1 + u) * (1 + u))) * 10 * u"
      using a2' u by (intro mult_right_mono) simp_all
    moreover have "10 * (\<bar>x1\<bar> * 100 * u) \<le> 10 * ((\<bar>t\<bar> * (1 + u)) * 100 * u)"
      using a1 u by (intro mult_left_mono mult_right_mono) simp_all
    ultimately show ?thesis by linarith
  qed
  also have "\<dots> = 1000 * \<bar>t\<bar> * u * ((1 + u) * (1 + u) + (1 + u) + 1)"
    by (simp add: algebra_simps)
  also have "\<dots> \<le> 1000 * \<bar>t\<bar> * u * 4"
  proof -
    have "(1 + u) * (1 + u) + (1 + u) + 1 \<le> 4"
    proof -
      have "u * u \<le> (1 / 4) * (1 / 4)" using u by (intro mult_mono) simp_all
      then have "(1 + u) * (1 + u) \<le> 1 + 2 * (1 / 4) + 1 / 16" using u by (simp add: algebra_simps)
      with u show ?thesis by simp
    qed
    moreover have "0 \<le> 1000 * \<bar>t\<bar> * u" using u by simp
    ultimately show ?thesis by (intro mult_left_mono) simp_all
  qed
  finally have x3: "\<bar>x3 - 1000 * t\<bar> \<le> 4000 * \<bar>t\<bar> * u" by simp
  have "percent10 s n = js_round x3"
    by (simp add: percent10_def x3_def x2_def x1_def t_def)
  then have "\<bar>of_int (percent10 s n) - 1000 * t\<bar> \<le> \<bar>of_int (js_round x3) - x3\<bar> + \<bar>x3 - 1000 * t\<bar>"
    by simp
  also have "\<dots> \<le> 1 / 2 + 4000 * \<bar>t\<bar> * u"
    using js_round_err [of x3] x3 by linarith
  finally show ?thesis by (simp add: t_def u_def)
qed

text \<open>
  C7 (as amended).  The result of \<^verbatim>\<open>compressPdf\<close> reports the number of input bytes as
  \<^verbatim>\<open>originalSize\<close>, the number of output bytes as \<^verbatim>\<open>compressedSize\<close>, their difference as
  \<^verbatim>\<open>savings\<close> (which may be negative) and the page count of the document as opened, before
  any change.  \<^verbatim>\<open>savingsPercent\<close> is 0 for an empty input; otherwise it is the integer
  \<^verbatim>\<open>Math.round(((savings / originalSize) * 100) * 10)\<close> divided by 10, every operation rounded
  to double precision, and that integer differs from the exact value of
  \<open>1000 * savings / originalSize\<close> by at most one half plus a rounding error of
  \<open>4000 * |savings / originalSize| / 2\<^sup>5\<^sup>3\<close>.
\<close>

theorem compressPdf_reports:
  assumes "compressPdf eng options pdf = Inr r"
  shows "originalSize r = int (length pdf)
       \<and> compressedSize r = int (length (blob r))
       \<and> savings r = originalSize r - compressedSize r
       \<and> (\<exists>doc. pe_open eng pdf = Inr doc \<and> cr_pageCount r = pe_page_count eng doc)
       \<and> savingsPercent r =
           (if 0 < originalSize r
            then fl (of_int (percent10 (savings r) (originalSize r)) / 10) else 0)
       \<and> (0 < originalSize r \<longrightarrow>
            \<bar>rat_of_int (percent10 (savings r) (originalSize r))
               - 1000 * (of_int (savings r) / of_int (originalSize r))\<bar>
              \<le> 1 / 2 + 4000 * \<bar>rat_of_int (savings r) / of_int (originalSize r)\<bar> / 2 ^ 53)"
proof -
  from assms obtain bytes csize pgs where
    s: "compress_script eng (not_false (images_enabled options))
          (not_false (subset_fonts options)) pdf = Inr (bytes, csize, pgs)"
    by (auto simp: compressPdf_def Let_def split: sum.splits)
  from s obtain doc where d: "pe_open eng pdf = Inr doc" and p: "pgs = pe_page_count eng doc"
    and c: "csize = int (length bytes)"
    by (auto simp: compress_script_def Let_def split: sum.splits if_splits)
  have r: "r = \<lparr>blob = bytes, originalSize = int (length pdf), compressedSize = csize,
                savings = int (length pdf) - csize,
                savingsPercent =
                  fl (of_int (js_round (fl ((if 0 < int (length pdf)
                        then fl (fl (of_int (int (length pdf) - csize) / of_int (int (length pdf))) * 100)
                        else 0) * 10))) / 10),
                cr_pageCount = pgs\<rparr>"
    using assms s by (simp add: compressPdf_def Let_def)
  have z: "fl 0 = 0" by (simp add: fl_def)
  have z': "js_round 0 = 0" by code_simp
  have "savingsPercent r =
           (if 0 < originalSize r
            then fl (of_int (percent10 (savings r) (originalSize r)) / 10) else 0)"
    by (simp add: r percent10_def z z')
  with d p c percent10_bound [of "savings r" "originalSize r"] show ?thesis
    by (simp add: r)
qed

lemma script_example:
  "compress_script (trim_engine 29 10) True True (replicate 80 0) = Inr (replicate 29 0, 29, 10)"
  by (simp add: compress_script_def trim_engine_def)

lemma percent10_example: "js_round (fl (fl (fl (51 / 80) * 100) * 10)) = 637"
  by code_simp

lemma compress_example:
  "compressPdf (trim_engine 29 10) default_options (replicate 80 0) =
     Inr \<lparr>blob = replicate 29 0, originalSize = 80, compressedSize = 29, savings = 51,
          savingsPercent = fl (637 / 10), cr_pageCount = 10\<rparr>"
  by (simp add: compressPdf_def default_options_def not_false_def script_example
        percent10_example)

theorem compressPdf_reports_witness:
  "originalSize \<lparr>blob = replicate 29 0, originalSize = 80, compressedSize = 29, savings = 51,
                 savingsPercent = fl (637 / 10), cr_pageCount = 10\<rparr> = int (length (replicate 80 (0::nat)))
   \<and> pe_open (trim_engine 29 10) (replicate 80 0) = Inr (replicate 80 0)
   \<and> pe_page_count (trim_engine 29 10) (replicate 80 0) = 10
   \<and> percent10 51 80 = 637
   \<and> \<bar>rat_of_int (percent10 51 80) - 1000 * (of_int 51 / of_int 80)\<bar>
        \<le> 1 / 2 + 4000 * \<bar>rat_of_int 51 / of_int 80\<bar> / 2 ^ 53"
proof -
  note t = compressPdf_reports [OF compress_example]
  have pos: "0 < originalSize \<lparr>blob = replicate 29 0, originalSize = 80, compressedSize = 29,
                 savings = 51, savingsPercent = fl (637 / 10), cr_pageCount = 10\<rparr>"
    by simp
  have a: "originalSize \<lparr>blob = replicate 29 0, originalSize = 80, compressedSize = 29, savings = 51,
                 savingsPercent = fl (637 / 10), cr_pageCount = 10\<rparr> = int (length (replicate 80 (0::nat)))"
    using t by blast
  have b: "\<bar>rat_of_int (percent10 51 80) - 1000 * (of_int 51 / of_int 80)\<bar>
        \<le> 1 / 2 + 4000 * \<bar>rat_of_int 51 / of_int 80\<bar> / 2 ^ 53"
    using t [THEN conjunct2, THEN conjunct2, THEN conjunct2, THEN conjunct2, THEN conjunct2,
             THEN mp, OF pos]
    by simp
  have c: "pe_open (trim_engine 29 10) (replicate 80 0) = Inr (replicate 80 0)"
    "pe_page_count (trim_engine 29 10) (replicate 80 0) = 10"
    by (simp_all add: trim_engine_def)
  have d: "percent10 51 80 = 637" by (simp add: percent10_def percent10_example)
  from a b c d show ?thesis by blast
qed

text \<open>
  C7 as stated fails.  For an input of 80 bytes compressed to 29 (or 80000 to 29000: the
  quotient is the same number), \<^verbatim>\<open>(51 / 80) * 100 * 10\<close> is just below 637.5 in double
  precision and rounds to 637, so the code reports 63.7, while \<^verbatim>\<open>51 / 80 * 1000\<close> is exactly
  637.5 and the formula of the specification gives 63.8.  For an empty input the code reports
  0, where the formula divides by zero.
\<close>

lemma spec_example: "spec_savingsPercent 80 29 = Some (fl (638 / 10))"
proof -
  have "js_round (fl (fl (51 / 80) * 1000)) = 638" by code_simp
  then show ?thesis by (simp add: spec_savingsPercent_def)
qed

lemma empty_example:
  "savingsPercent (projr (compressPdf (trim_engine 0 10) default_options [])) = 0"
proof -
  have "js_round 0 = 0" by code_simp
  then show ?thesis
    by (simp add: compressPdf_def default_options_def not_false_def compress_script_def
          trim_engine_def fl_def)
qed

theorem compressPdf_reports_counterexample:
  "compressPdf (trim_engine 29 10) default_options (replicate 80 0) =
     Inr \<lparr>blob = replicate 29 0, originalSize = 80, compressedSize = 29, savings = 51,
          savingsPercent = fl (637 / 10), cr_pageCount = 10\<rparr>
   \<and> spec_savingsPercent 80 29 = Some (fl (638 / 10))
   \<and> fl (637 / 10) \<noteq> fl (638 / 10)
   \<and> fl (fl (fl (51 / 80) * 100) * 10) < 1275 / 2
   \<and> fl (fl (51 / 80) * 1000) = 1275 / 2
   \<and> savingsPercent (projr (compressPdf (trim_engine 0 10) default_options [])) = 0
   \<and> spec_savingsPercent 0 0 = None"
proof -
  have a: "fl (637 / 10) \<noteq> fl (638 / 10)" by code_simp
  have b: "fl (fl (fl (51 / 80) * 100) * 10) < 1275 / 2" by code_simp
  have c: "fl (fl (51 / 80) * 1000) = 1275 / 2" by code_simp
  have d: "spec_savingsPercent 0 0 = None" by (simp add: spec_savingsPercent_def)
  from compress_example spec_example a b c empty_example d show ?thesis by blast
qed

end
